theory Spec2Isabelle
  imports Complex_Main "HOL-Library.Word"
begin

unbundle bit_operations_syntax

section \<open>Audio utility functions (utils/audio.ts)\<close>

text \<open>
  JavaScript numbers that carry times, durations and sample values are modelled as
  \<^typ>\<open>real\<close>, without rounding; they come from the clock, from buffer lengths and from
  16-bit samples and are never NaN or infinite. The one number a caller passes in, the
  argument of \<open>setVolume\<close>, is a \<open>number\<close> (defined with the service below), which has
  NaN and the two infinities. A \<open>Uint8Array\<close> is a list of
  8-bit words, an \<open>Int16Array\<close> a list of 16-bit words read through \<^const>\<open>sint\<close>, a
  \<open>Float32Array\<close> a list of reals. An exception is the left injection of a sum.
\<close>

type_synonym byte = "8 word"
type_synonym int16 = "16 word"

datatype error = InvalidCharacterError | NotSupportedError | TypeError

subsection \<open>The platform function \<open>atob\<close>\<close>

text \<open>
  \<open>atob\<close> belongs to the browser, not to the repository. It is modelled after the
  forgiving-base64 decode of the WHATWG Infra standard: ASCII whitespace is removed; when
  the length is then a multiple of four, one or two trailing \<open>=\<close> are removed; a length
  of 1 modulo 4 or any character outside the base64 alphabet raises
  \<open>InvalidCharacterError\<close>; every four characters give three bytes, a remainder of three
  characters gives two bytes and a remainder of two characters one byte. The result is a
  binary string, one character per byte.
\<close>

definition is_ascii_whitespace :: "char \<Rightarrow> bool" where
  "is_ascii_whitespace c = (of_char c \<in> {9, 10, 12, 13, 32 :: nat})"

definition sextet_of_char :: "char \<Rightarrow> nat option" where
  "sextet_of_char c =
     (let n = (of_char c :: nat) in
      if 65 \<le> n \<and> n \<le> 90 then Some (n - 65)
      else if 97 \<le> n \<and> n \<le> 122 then Some (n - 71)
      else if 48 \<le> n \<and> n \<le> 57 then Some (n + 4)
      else if n = 43 then Some 62
      else if n = 47 then Some 63
      else None)"

definition remove_padding :: "string \<Rightarrow> string" where
  "remove_padding d =
     (if length d mod 4 = 0 then
        (if 2 \<le> length d \<and> last d = CHR ''='' \<and> last (butlast d) = CHR ''=''
         then butlast (butlast d)
         else if d \<noteq> [] \<and> last d = CHR ''='' then butlast d
         else d)
      else d)"

fun decode_sextets :: "nat list \<Rightarrow> string" where
  "decode_sextets (a # b # c # d # rest) =
     (let n = ((a * 64 + b) * 64 + c) * 64 + d
      in char_of (n div 65536) # char_of (n div 256) # char_of n # decode_sextets rest)"
| "decode_sextets [a, b, c] =
     (let n = ((a * 64 + b) * 64 + c) div 4
      in [char_of (n div 256), char_of n])"
| "decode_sextets [a, b] = [char_of ((a * 64 + b) div 16)]"
| "decode_sextets _ = []"

definition atob :: "string \<Rightarrow> error + string" where
  "atob s =
     (let d = remove_padding (filter (\<lambda>c. \<not> is_ascii_whitespace c) s) in
      if length d mod 4 = 1 then Inl InvalidCharacterError
      else case those (map sextet_of_char d) of
             None \<Rightarrow> Inl InvalidCharacterError
           | Some vs \<Rightarrow> Inr (decode_sextets vs))"

subsection \<open>Base64 to bytes, bytes to 16-bit samples, samples to floats\<close>

text \<open>\<open>base64ToUint8Array\<close>: \<open>bytes[i] = binaryString.charCodeAt(i)\<close> for every index.\<close>

definition base64ToUint8Array :: "string \<Rightarrow> error + byte list" where
  "base64ToUint8Array base64 =
     (case atob base64 of
        Inl e \<Rightarrow> Inl e
      | Inr binaryString \<Rightarrow>
          Inr (map (\<lambda>i. of_nat (of_char (binaryString ! i))) [0..<length binaryString]))"

text \<open>
  \<open>uint8ArrayToInt16Array\<close>: \<open>new Int16Array(uint8Array.length / 2)\<close> truncates a
  fractional length (the constructor converts its argument with ECMAScript's \<open>ToIndex\<close>),
  so an odd trailing byte is ignored and nothing is thrown. Storing
  \<open>(highByte << 8) | lowByte\<close> into the \<open>Int16Array\<close> wraps it to 16 bits
  (\<^const>\<open>word_of_int\<close>); the element is read back signed (\<^const>\<open>sint\<close>) by the test
  \<open>int16Array[i] > 32767\<close>.
\<close>

definition uint8ArrayToInt16Array :: "byte list \<Rightarrow> int16 list" where
  "uint8ArrayToInt16Array uint8Array =
     map (\<lambda>i. let lowByte = uint8Array ! (i * 2);
                  highByte = uint8Array ! (i * 2 + 1);
                  x = (word_of_int (push_bit 8 (uint highByte) OR uint lowByte) :: int16)
              in if sint x > 32767 then word_of_int (sint x - 65536) else x)
         [0..<length uint8Array div 2]"

definition int16ArrayToFloat32Array :: "int16 list \<Rightarrow> real list" where
  "int16ArrayToFloat32Array int16Array =
     (let scale = 1.0 / 32768.0
      in map (\<lambda>i. real_of_int (sint (int16Array ! i)) * scale) [0..<length int16Array])"

definition base64PcmToFloat32 :: "string \<Rightarrow> error + real list" where
  "base64PcmToFloat32 base64 =
     (case base64ToUint8Array base64 of
        Inl e \<Rightarrow> Inl e
      | Inr uint8Array \<Rightarrow> Inr (int16ArrayToFloat32Array (uint8ArrayToInt16Array uint8Array)))"

subsection \<open>Fades\<close>

text \<open>
  \<open>applyFadeIn\<close> and \<open>applyFadeOut\<close> copy the data and run an index loop
  \<open>for (let i = 0; i < fadeLength; i++)\<close>; the loops are the recursive functions below,
  with \<open>fadeLength = Math.min(fadeSamples, data.length)\<close>. The sample count is an integer
  and may be negative, in which case the loop body never runs.
\<close>

function fadeIn_loop :: "real list \<Rightarrow> int \<Rightarrow> int \<Rightarrow> real list" where
  "fadeIn_loop result fadeLength i =
     (if i < fadeLength
      then let gain = real_of_int i / real_of_int fadeLength
           in fadeIn_loop (result[nat i := result ! nat i * gain]) fadeLength (i + 1)
      else result)"
  by pat_completeness auto
termination
  by (relation "measure (\<lambda>(result, fadeLength, i). nat (fadeLength - i))") auto

definition applyFadeIn :: "real list \<Rightarrow> int \<Rightarrow> real list" where
  "applyFadeIn data fadeSamples =
     (let fadeLength = min fadeSamples (int (length data))
      in fadeIn_loop data fadeLength 0)"

function fadeOut_loop :: "real list \<Rightarrow> int \<Rightarrow> int \<Rightarrow> int \<Rightarrow> real list" where
  "fadeOut_loop result fadeLength startIndex i =
     (if i < fadeLength
      then let gain = 1 - real_of_int i / real_of_int fadeLength
           in fadeOut_loop (result[nat (startIndex + i) := result ! nat (startIndex + i) * gain])
                fadeLength startIndex (i + 1)
      else result)"
  by pat_completeness auto
termination
  by (relation "measure (\<lambda>(result, fadeLength, startIndex, i). nat (fadeLength - i))") auto

definition applyFadeOut :: "real list \<Rightarrow> int \<Rightarrow> real list" where
  "applyFadeOut data fadeSamples =
     (let fadeLength = min fadeSamples (int (length data));
          startIndex = int (length data) - fadeLength
      in fadeOut_loop data fadeLength startIndex 0)"

subsection \<open>Reference encoder\<close>

text \<open>
  The repository only decodes. To state the round trip, the standard base64 encoding
  (RFC 4648, with padding) and the little-endian byte representation of 16-bit samples
  are written down here; they are the specification side of the round trip.
\<close>

definition char_of_sextet :: "nat \<Rightarrow> char" where
  "char_of_sextet v =
     (if v < 26 then char_of (v + 65)
      else if v < 52 then char_of (v + 71)
      else if v < 62 then char_of (v - 4)
      else if v = 62 then CHR ''+'' else CHR ''/'')"

fun encode_sextets :: "byte list \<Rightarrow> nat list" where
  "encode_sextets (a # b # c # rest) =
     (let n = unat a * 65536 + unat b * 256 + unat c
      in n div 262144 # n div 4096 mod 64 # n div 64 mod 64 # n mod 64 # encode_sextets rest)"
| "encode_sextets [a, b] =
     (let n = (unat a * 256 + unat b) * 4
      in [n div 4096, n div 64 mod 64, n mod 64])"
| "encode_sextets [a] =
     (let n = unat a * 16 in [n div 64, n mod 64])"
| "encode_sextets [] = []"

definition base64_encode :: "byte list \<Rightarrow> string" where
  "base64_encode bytes =
     map char_of_sextet (encode_sextets bytes) @
     replicate ((3 - length bytes mod 3) mod 3) (CHR ''='')"

definition pcm16le_bytes :: "int16 list \<Rightarrow> byte list" where
  "pcm16le_bytes samples = concat (map (\<lambda>s. [ucast s, ucast (drop_bit 8 s)]) samples)"


section \<open>Constants (utils/constants.ts)\<close>

definition SAMPLE_RATE :: nat where "SAMPLE_RATE = 24000"
definition CHANNELS :: nat where "CHANNELS = 1"
definition LOOKAHEAD_TIME :: real where "LOOKAHEAD_TIME = 0.1"
definition FADE_DURATION :: real where "FADE_DURATION = 0.05"

section \<open>Audio buffers and the platform's buffer constructor\<close>

record AudioBuffer =
  numberOfChannels :: nat
  sampleRate :: nat
  channelData :: "real list"

text \<open>\<open>buffer.duration\<close> is the number of sample frames divided by the sample rate.\<close>

definition duration :: "AudioBuffer \<Rightarrow> real" where
  "duration b = real (length (channelData b)) / real (sampleRate b)"

text \<open>
  \<open>AudioContext.createBuffer\<close> is a platform function. The Web Audio API has it raise
  \<open>NotSupportedError\<close> when the channel count, the frame count or the sample rate is
  zero (or outside the supported range; every implementation supports the one rate the
  service uses, 24000 Hz). Otherwise the new buffer is silent.
\<close>

definition createBuffer :: "nat \<Rightarrow> nat \<Rightarrow> nat \<Rightarrow> error + AudioBuffer" where
  "createBuffer channels frameCount rate =
     (if channels = 0 \<or> frameCount = 0 \<or> rate = 0 then Inl NotSupportedError
      else Inr \<lparr>numberOfChannels = channels, sampleRate = rate, channelData = replicate frameCount 0\<rparr>)"

text \<open>\<open>createAudioBuffer\<close>: create the buffer, then \<open>copyToChannel(data, 0)\<close>.\<close>

definition createAudioBuffer :: "real list \<Rightarrow> nat \<Rightarrow> error + AudioBuffer" where
  "createAudioBuffer data rate =
     (case createBuffer CHANNELS (length data) rate of
        Inl e \<Rightarrow> Inl e
      | Inr audioBuffer \<Rightarrow> Inr (audioBuffer\<lparr>channelData := data\<rparr>))"

section \<open>The audio service (services/audio-service)\<close>

datatype PlaybackState = Stopped | Connecting | Playing | Paused

text \<open>
  A JavaScript number as a caller can pass it: a real, an infinity or NaN. \<open>Math.min\<close>
  and \<open>Math.max\<close> return NaN as soon as one argument is NaN.
\<close>

datatype number = Number real | PosInfinity | NegInfinity | NaN

fun Math_min :: "number \<Rightarrow> number \<Rightarrow> number" where
  "Math_min NaN y = NaN"
| "Math_min x NaN = NaN"
| "Math_min NegInfinity y = NegInfinity"
| "Math_min x NegInfinity = NegInfinity"
| "Math_min PosInfinity y = y"
| "Math_min x PosInfinity = x"
| "Math_min (Number a) (Number b) = Number (min a b)"

fun Math_max :: "number \<Rightarrow> number \<Rightarrow> number" where
  "Math_max NaN y = NaN"
| "Math_max x NaN = NaN"
| "Math_max PosInfinity y = PosInfinity"
| "Math_max x PosInfinity = PosInfinity"
| "Math_max NegInfinity y = y"
| "Math_max x NegInfinity = x"
| "Math_max (Number a) (Number b) = Number (max a b)"

datatype AudioEvent =
    StateChange PlaybackState
  | VolumeChange number
  | Underrun
  | BufferUpdate real

datatype ContextState = Suspended | Running

text \<open>
  The \<open>AudioContext\<close> carries the output clock \<open>currentTime\<close>. An
  \<open>AudioBufferSourceNode\<close> that has been started is a \<open>Source\<close>: its buffer, the absolute
  time given to \<open>source.start\<close>, and an identifier that stands for the object's identity.
\<close>

record AudioContext =
  state :: ContextState
  currentTime :: real

record Source =
  sourceId :: nat
  buffer :: AudioBuffer
  startTime :: real

text \<open>
  The fields of the class, followed by what the service does to its surroundings:
  \<open>emitted\<close> lists the events passed to \<open>emit\<close>, \<open>started\<close> the sources handed to the
  output by \<open>source.start\<close>, \<open>console\<close> the logged messages, \<open>frameRequests\<close> the
  outstanding \<open>requestAnimationFrame\<close> callbacks, and \<open>nextSourceId\<close> numbers the source
  nodes. \<open>gainNode\<close> holds the target value of the gain, \<open>None\<close> standing for \<open>null\<close>.
  Listeners are observers: they receive the event and do not call back into the service.
\<close>

record AudioService =
  audioContext :: "AudioContext option"
  gainNode :: "real option"
  analyserNode :: bool
  playbackState :: PlaybackState
  volume :: number
  nextStartTime :: real
  scheduledSources :: "Source list"
  audioQueue :: "AudioBuffer list"
  isProcessingQueue :: bool
  bufferLevel :: real
  totalBufferedDuration :: real
  emitted :: "AudioEvent list"
  started :: "Source list"
  console :: "string list"
  frameRequests :: nat
  nextSourceId :: nat

definition newAudioService :: AudioService where
  "newAudioService =
     \<lparr>audioContext = None, gainNode = None, analyserNode = False,
      playbackState = Stopped, volume = Number 1.0, nextStartTime = 0,
      scheduledSources = [], audioQueue = [], isProcessingQueue = False,
      bufferLevel = 0, totalBufferedDuration = 0,
      emitted = [], started = [], console = [], frameRequests = 0, nextSourceId = 0\<rparr>"

definition emit :: "AudioEvent \<Rightarrow> AudioService \<Rightarrow> AudioService" where
  "emit event st = st\<lparr>emitted := emitted st @ [event]\<rparr>"

definition getVolume :: "AudioService \<Rightarrow> number" where
  "getVolume st = volume st"

definition getBufferLevel :: "AudioService \<Rightarrow> real" where
  "getBufferLevel st = bufferLevel st"

definition getPlaybackState :: "AudioService \<Rightarrow> PlaybackState" where
  "getPlaybackState st = playbackState st"

text \<open>
  \<open>initialize\<close>: the argument is what \<open>new AudioContext\<close> gives, \<open>None\<close> when the
  constructor throws. A new context starts its clock at 0. The assignment
  \<open>this.gainNode.gain.value = this.volume\<close> is to a Web IDL \<open>float\<close> and throws
  \<open>TypeError\<close> when the volume is not finite; the \<open>catch\<close> then logs and returns
  \<open>false\<close>, with the context and the gain node (at its default gain 1) already
  assigned and the analyser not yet created.
\<close>

definition initialize :: "ContextState option \<Rightarrow> AudioService \<Rightarrow> AudioService \<times> bool" where
  "initialize created st =
     (if audioContext st \<noteq> None then (st, True)
      else case created of
             Some s \<Rightarrow>
               (case volume st of
                  Number gain \<Rightarrow>
                    (st\<lparr>audioContext := Some \<lparr>state = s, currentTime = 0\<rparr>,
                        gainNode := Some gain,
                        analyserNode := True\<rparr>, True)
                | _ \<Rightarrow>
                    (st\<lparr>audioContext := Some \<lparr>state = s, currentTime = 0\<rparr>,
                        gainNode := Some 1,
                        console := console st @ [''Failed to initialize AudioContext:'']\<rparr>,
                     False))
           | None \<Rightarrow>
               (st\<lparr>console := console st @ [''Failed to initialize AudioContext:'']\<rparr>, False))"

definition setPlaybackState :: "PlaybackState \<Rightarrow> AudioService \<Rightarrow> AudioService" where
  "setPlaybackState s st =
     (if playbackState st \<noteq> s then emit (StateChange s) (st\<lparr>playbackState := s\<rparr>) else st)"

text \<open>
  \<open>setVolume\<close> has no \<open>try\<close>. With a gain node it calls
  \<open>gain.setTargetAtTime(this.volume, now, 0.05)\<close>, whose target is a Web IDL \<open>float\<close>:
  a target that is not finite throws \<open>TypeError\<close>, after the assignment to
  \<open>this.volume\<close> and before the event is emitted. The result is the state the call
  leaves and the exception it propagates, if any.
\<close>

definition setVolume :: "number \<Rightarrow> AudioService \<Rightarrow> AudioService \<times> error option" where
  "setVolume v st =
     (let st1 = st\<lparr>volume := Math_max (Number 0) (Math_min (Number 1) v)\<rparr>
      in if gainNode st1 \<noteq> None
         then (case volume st1 of
                 Number target \<Rightarrow>
                   (emit (VolumeChange (volume st1)) (st1\<lparr>gainNode := Some target\<rparr>), None)
               | _ \<Rightarrow> (st1, Some TypeError))
         else (emit (VolumeChange (volume st1)) st1, None))"

subsection \<open>The draining routine\<close>

text \<open>
  One pass through the body of \<open>while (this.audioQueue.length > 0)\<close>, up to and including
  \<open>this.nextStartTime += buffer.duration\<close>. It is only entered with a non-empty queue.
\<close>

definition loop_body :: "real \<Rightarrow> AudioService \<Rightarrow> AudioService" where
  "loop_body now st =
     (let buf = hd (audioQueue st);
          st1 = st\<lparr>audioQueue := tl (audioQueue st)\<rparr>;
          st2 = (if nextStartTime st1 < now
                 then emit Underrun
                        (st1\<lparr>console := console st1 @ [''Audio underrun detected''],
                             nextStartTime := now\<rparr>)
                 else st1);
          source = \<lparr>sourceId = nextSourceId st2, buffer = buf, startTime = nextStartTime st2\<rparr>;
          st3 = st2\<lparr>started := started st2 @ [source],
                    scheduledSources := scheduledSources st2 @ [source],
                    nextSourceId := nextSourceId st2 + 1\<rparr>
      in st3\<lparr>nextStartTime := nextStartTime st3 + duration buf\<rparr>)"

function drain_loop :: "real \<Rightarrow> AudioService \<Rightarrow> AudioService" where
  "drain_loop now st =
     (if audioQueue st = [] then st
      else if nextStartTime (loop_body now st) - now > LOOKAHEAD_TIME * 10
           then loop_body now st
           else drain_loop now (loop_body now st))"
  by pat_completeness auto
termination
  by (relation "measure (\<lambda>(now, st). length (audioQueue st))")
    (auto simp add: loop_body_def Let_def emit_def)

definition processAudioQueue :: "AudioService \<Rightarrow> AudioService" where
  "processAudioQueue st =
     (case audioContext st of
        None \<Rightarrow> st
      | Some ctx \<Rightarrow>
          if isProcessingQueue st \<or> playbackState st \<noteq> Playing then st
          else let st1 = st\<lparr>isProcessingQueue := True\<rparr>;
                   st2 = drain_loop (currentTime ctx) st1;
                   st3 = st2\<lparr>isProcessingQueue := False\<rparr>
               in if audioQueue st3 \<noteq> [] \<and> playbackState st3 = Playing
                  then st3\<lparr>frameRequests := frameRequests st3 + 1\<rparr>
                  else st3)"

text \<open>The callback given to \<open>requestAnimationFrame\<close>; it runs once per outstanding request.\<close>

definition animationFrame :: "AudioService \<Rightarrow> AudioService" where
  "animationFrame st =
     (if frameRequests st = 0 then st
      else processAudioQueue (st\<lparr>frameRequests := frameRequests st - 1\<rparr>))"

text \<open>The \<open>onended\<close> handler of a source.\<close>

definition onended :: "Source \<Rightarrow> AudioService \<Rightarrow> AudioService" where
  "onended source st =
     (let st1 = st\<lparr>scheduledSources := remove1 source (scheduledSources st)\<rparr>;
          st2 = st1\<lparr>totalBufferedDuration :=
                      max 0 (totalBufferedDuration st1 - duration (buffer source))\<rparr>
      in st2\<lparr>bufferLevel := min 1 (totalBufferedDuration st2 / 5)\<rparr>)"

subsection \<open>Playback control\<close>

text \<open>
  \<open>play\<close>, \<open>pause\<close>, \<open>stop\<close> and \<open>dispose\<close> are \<open>async\<close>. \<open>play\<close> and
  \<open>initialize\<close> return the new state and the boolean the promise resolves to.

  \<open>stop\<close> assigns its fields, among them \<open>nextStartTime = 0\<close>, then awaits
  \<open>audioContext.suspend()\<close>, and only then sets the playback state and emits the
  event. Other operations (a chunk arriving, an animation frame) can run during that
  await, so \<open>stop\<close> is two steps: \<open>stop_begin\<close>, up to the await, and \<open>stop_finish\<close>,
  from the point where the promise has resolved and the context is suspended. \<open>stop\<close>
  itself is the two in a row, a stop during which nothing else runs. (Without a context
  \<open>stop\<close> has no await, and the program never runs anything between the two halves;
  the steps allow it all the same, so they describe more schedules than the program has.)
  \<open>stop\<close> stops and
  disconnects every scheduled source and empties the list; the model keeps no record of
  the stopped sources beyond the list \<open>started\<close>.

  The other awaits need no step of their own. \<open>await this.initialize()\<close> waits for a
  promise that is already resolved. \<open>pause\<close> assigns nothing before its await, so a
  pause with operations during the await is those operations followed by \<open>pause\<close>.
  \<open>play\<close> has only \<open>initialize\<close> before its await of \<open>resume()\<close>, so it is
  \<open>initialize\<close>, the operations, then \<open>play\<close>. \<open>dispose\<close> is modelled without
  operations during its awaits.
\<close>

definition resume :: "AudioService \<Rightarrow> AudioService" where
  "resume st = st\<lparr>audioContext := map_option (\<lambda>ctx. ctx\<lparr>state := Running\<rparr>) (audioContext st)\<rparr>"

definition suspend :: "AudioService \<Rightarrow> AudioService" where
  "suspend st = st\<lparr>audioContext := map_option (\<lambda>ctx. ctx\<lparr>state := Suspended\<rparr>) (audioContext st)\<rparr>"

definition play :: "ContextState option \<Rightarrow> AudioService \<Rightarrow> AudioService \<times> bool" where
  "play created st =
     (let (st1, initialized) =
            (if audioContext st = None then initialize created st else (st, True))
      in if \<not> initialized then (st1, False)
         else let st2 = (if map_option state (audioContext st1) = Some Suspended
                         then resume st1 else st1);
                  st3 = setPlaybackState Playing st2
              in (processAudioQueue st3, True))"

definition pause :: "AudioService \<Rightarrow> AudioService" where
  "pause st =
     (let st1 = (if map_option state (audioContext st) = Some Running then suspend st else st)
      in setPlaybackState Paused st1)"

definition stop_begin :: "AudioService \<Rightarrow> AudioService" where
  "stop_begin st =
     (let st1 = st\<lparr>scheduledSources := []\<rparr>;
          st2 = st1\<lparr>audioQueue := [], totalBufferedDuration := 0, bufferLevel := 0\<rparr>
      in st2\<lparr>nextStartTime := 0\<rparr>)"

definition stop_finish :: "AudioService \<Rightarrow> AudioService" where
  "stop_finish st =
     (let st4 = (if audioContext st \<noteq> None then suspend st else st);
          st5 = setPlaybackState Stopped st4
      in emit (BufferUpdate 0) st5)"

definition stop :: "AudioService \<Rightarrow> AudioService" where
  "stop st = stop_finish (stop_begin st)"

definition dispose :: "AudioService \<Rightarrow> AudioService" where
  "dispose st = (stop st)\<lparr>audioContext := None, gainNode := None, analyserNode := False\<rparr>"

subsection \<open>Queueing a chunk\<close>

text \<open>
  Everything after the null check runs inside \<open>try\<close>; the \<open>catch\<close> logs and returns, so
  the function has no exceptional result. The two calls that can throw,
  \<open>base64PcmToFloat32\<close> and \<open>createAudioBuffer\<close>, come before the first assignment to a
  field.
\<close>

definition queueAudioChunk :: "string \<Rightarrow> AudioService \<Rightarrow> AudioService" where
  "queueAudioChunk base64Data st =
     (if audioContext st = None
      then st\<lparr>console := console st @ [''AudioContext not initialized'']\<rparr>
      else case base64PcmToFloat32 base64Data of
             Inl e \<Rightarrow> st\<lparr>console := console st @ [''Failed to queue audio chunk:'']\<rparr>
           | Inr float32Data \<Rightarrow>
               let fadeSamples = \<lfloor>FADE_DURATION * real SAMPLE_RATE\<rfloor>;
                   processedData =
                     (if audioQueue st = [] \<and> scheduledSources st = []
                      then applyFadeIn float32Data fadeSamples
                      else float32Data)
               in case createAudioBuffer processedData SAMPLE_RATE of
                    Inl e \<Rightarrow> st\<lparr>console := console st @ [''Failed to queue audio chunk:'']\<rparr>
                  | Inr buf \<Rightarrow>
                      let st1 = st\<lparr>audioQueue := audioQueue st @ [buf]\<rparr>;
                          st2 = st1\<lparr>totalBufferedDuration :=
                                      totalBufferedDuration st1 + duration buf\<rparr>;
                          st3 = st2\<lparr>bufferLevel := min 1 (totalBufferedDuration st2 / 5)\<rparr>;
                          st4 = emit (BufferUpdate (bufferLevel st3)) st3
                      in if playbackState st4 = Playing then processAudioQueue st4 else st4)"

subsection \<open>The environment\<close>

text \<open>The output clock advances while the context is running and stands still otherwise.\<close>

definition advanceClock :: "real \<Rightarrow> AudioService \<Rightarrow> AudioService" where
  "advanceClock dt st =
     st\<lparr>audioContext :=
          map_option (\<lambda>ctx. if state ctx = Running
                            then ctx\<lparr>currentTime := currentTime ctx + dt\<rparr> else ctx)
            (audioContext st)\<rparr>"

datatype Action =
    Initialize "ContextState option"
  | Play "ContextState option"
  | Pause
  | Stop
  | StopBegin
  | StopFinish
  | Dispose
  | QueueAudioChunk string
  | SetVolume number
  | AnimationFrame
  | SourceEnded Source
  | AdvanceClock real

fun step :: "Action \<Rightarrow> AudioService \<Rightarrow> AudioService" where
  "step (Initialize created) st = fst (initialize created st)"
| "step (Play created) st = fst (play created st)"
| "step Pause st = pause st"
| "step Stop st = stop st"
| "step StopBegin st = stop_begin st"
| "step StopFinish st = stop_finish st"
| "step Dispose st = dispose st"
| "step (QueueAudioChunk base64Data) st = queueAudioChunk base64Data st"
| "step (SetVolume v) st = fst (setVolume v st)"
| "step AnimationFrame st = animationFrame st"
| "step (SourceEnded source) st = onended source st"
| "step (AdvanceClock dt) st = advanceClock dt st"

fun run :: "Action list \<Rightarrow> AudioService \<Rightarrow> AudioService" where
  "run [] st = st"
| "run (a # as) st = run as (step a st)"

section \<open>Notions used to state and prove the properties\<close>

subsection \<open>One run of the draining routine\<close>

text \<open>
  \<open>ready\<close> holds when the three guards at the head of \<open>processAudioQueue\<close> let the run
  proceed; \<open>clock\<close> is the reading of \<open>audioContext.currentTime\<close>; \<open>scheduled_by_run\<close> lists
  the sources that one call of \<open>processAudioQueue\<close> hands to the output, in order.
\<close>

definition ready :: "AudioService \<Rightarrow> bool" where
  "ready st = (audioContext st \<noteq> None \<and> \<not> isProcessingQueue st \<and> playbackState st = Playing)"

definition in_unit_interval :: "number \<Rightarrow> bool" where
  "in_unit_interval v = (case v of Number r \<Rightarrow> 0 \<le> r \<and> r \<le> 1 | _ \<Rightarrow> False)"

definition clock :: "AudioService \<Rightarrow> real" where
  "clock st = (case audioContext st of None \<Rightarrow> 0 | Some ctx \<Rightarrow> currentTime ctx)"

definition scheduled_by_run :: "AudioService \<Rightarrow> Source list" where
  "scheduled_by_run st = drop (length (started st)) (started (processAudioQueue st))"

text \<open>
  \<open>drain_segments now t k q\<close> describes the sources the loop creates when it starts with
  clock reading \<open>now\<close>, \<open>nextStartTime = t\<close>, next identifier \<open>k\<close> and queue \<open>q\<close>; the lemma
  \<open>drain_loop_segments\<close> below proves that the loop does exactly this. \<open>chained t ss\<close> says
  that \<open>ss\<close> begins at \<open>t\<close> and each source begins where its predecessor ends;
  \<open>end_time t ss\<close> is where the last source of \<open>ss\<close> ends (\<open>t\<close> for no source).
\<close>

fun drain_segments :: "real \<Rightarrow> real \<Rightarrow> nat \<Rightarrow> AudioBuffer list \<Rightarrow> Source list" where
  "drain_segments now t k [] = []"
| "drain_segments now t k (b # q) =
     (let t0 = (if t < now then now else t)
      in \<lparr>sourceId = k, buffer = b, startTime = t0\<rparr> #
         (if t0 + duration b - now > LOOKAHEAD_TIME * 10 then []
          else drain_segments now (t0 + duration b) (k + 1) q))"

fun chained :: "real \<Rightarrow> Source list \<Rightarrow> bool" where
  "chained t [] = True"
| "chained t (s # ss) = (startTime s = t \<and> chained (t + duration (buffer s)) ss)"

fun end_time :: "real \<Rightarrow> Source list \<Rightarrow> real" where
  "end_time t [] = t"
| "end_time t (s # ss) = end_time (startTime s + duration (buffer s)) ss"

subsection \<open>Sequences of chunks\<close>

text \<open>
  \<open>pipeline\<close> is the audio the service has accepted and not lost: the buffers already
  handed to the output, followed by the queue. \<open>frame_pending\<close> says that a non-empty queue
  has an animation-frame callback outstanding, as \<open>processAudioQueue\<close> arranges on leaving.

  \<open>chunk_buffer fade c\<close> is the buffer \<open>queueAudioChunk\<close> builds from the chunk \<open>c\<close>
  (\<open>None\<close> when decoding or buffer creation throws), with the entry fade when \<open>fade\<close>
  holds; \<open>enqueued\<close> is the state after the buffer has been pushed and the
  \<open>buffer-update\<close> event emitted. \<open>accepted_buffers\<close> lists the buffers of a sequence of
  chunks: a chunk that is dropped leaves no buffer, and the fade is for the first buffer
  only. \<open>feed_chunks\<close> passes chunks to \<open>queueAudioChunk\<close> one after the other, the clock
  advancing before each; \<open>run_frames\<close> lets outstanding animation frames run.
\<close>

definition pipeline :: "AudioService \<Rightarrow> AudioBuffer list" where
  "pipeline st = map buffer (started st) @ audioQueue st"

definition frame_pending :: "AudioService \<Rightarrow> bool" where
  "frame_pending st = (audioQueue st \<noteq> [] \<longrightarrow> 0 < frameRequests st)"



definition enqueued :: "AudioBuffer \<Rightarrow> AudioService \<Rightarrow> AudioService" where
  "enqueued buf st =
     emit (BufferUpdate (min 1 ((totalBufferedDuration st + duration buf) / 5)))
       (st\<lparr>audioQueue := audioQueue st @ [buf],
           totalBufferedDuration := totalBufferedDuration st + duration buf,
           bufferLevel := min 1 ((totalBufferedDuration st + duration buf) / 5)\<rparr>)"




subsection \<open>Example states\<close>

text \<open>
  \<open>silence n\<close> is a buffer of \<open>n\<close> frames at 24000 Hz: 2400 frames last 100 ms, 48000
  frames two seconds. \<open>playing_service now next queue\<close> is an initialised service in the
  playing state with the given clock reading, \<open>nextStartTime\<close> and queue, as
  \<open>processAudioQueue\<close> finds it when it is called; the fields the draining routine does
  not read keep their initial values. The other states are reached from the constructor
  by the operations named in their definitions.
\<close>

definition silence :: "nat \<Rightarrow> AudioBuffer" where
  "silence n = \<lparr>numberOfChannels = 1, sampleRate = 24000, channelData = replicate n 0\<rparr>"

definition playing_service :: "real \<Rightarrow> real \<Rightarrow> AudioBuffer list \<Rightarrow> AudioService" where
  "playing_service now next queue =
     newAudioService\<lparr>audioContext := Some \<lparr>state = Running, currentTime = now\<rparr>,
       gainNode := Some 1, analyserNode := True, playbackState := Playing,
       nextStartTime := next, audioQueue := queue\<rparr>"

definition played_until_5 :: AudioService where
  "played_until_5 = run [Play (Some Running), AdvanceClock 5] newAudioService"

definition initialized_service :: AudioService where
  "initialized_service = fst (initialize (Some Suspended) newAudioService)"

definition started_service :: AudioService where
  "started_service = fst (play (Some Running) newAudioService)"

definition chunk_played_at_5 :: AudioService where
  "chunk_played_at_5 =
     run [Play (Some Running), AdvanceClock 5, QueueAudioChunk ''AAAA''] newAudioService"

declare drain_loop.simps [simp del]
declare fadeIn_loop.simps [simp del]
declare fadeOut_loop.simps [simp del]

lemmas decode_eval =
  base64PcmToFloat32_def base64ToUint8Array_def atob_def remove_padding_def
  is_ascii_whitespace_def sextet_of_char_def uint8ArrayToInt16Array_def
  int16ArrayToFloat32Array_def createAudioBuffer_def createBuffer_def applyFadeIn_def
  fadeIn_loop.simps SAMPLE_RATE_def CHANNELS_def FADE_DURATION_def

lemmas service_eval =
  playing_service_def silence_def newAudioService_def processAudioQueue_def drain_loop.simps
  loop_body_def emit_def Let_def duration_def LOOKAHEAD_TIME_def scheduled_by_run_def
  clock_def ready_def

lemmas control_eval =
  played_until_5_def started_service_def initialized_service_def chunk_played_at_5_def
  play_def initialize_def
  stop_def stop_begin_def stop_finish_def suspend_def resume_def pause_def
  setPlaybackState_def advanceClock_def
  animationFrame_def

section \<open>The decoder\<close>

lemma sextet_roundtrip: "v < 64 \<Longrightarrow> sextet_of_char (char_of_sextet v) = Some v"
  by (auto simp add: sextet_of_char_def char_of_sextet_def Let_def)

lemma sextet_not_pad: "v < 64 \<Longrightarrow> char_of_sextet v \<noteq> CHR ''=''"
  using sextet_roundtrip[of v] by (auto simp add: sextet_of_char_def)

lemma sextet_not_ws: "v < 64 \<Longrightarrow> \<not> is_ascii_whitespace (char_of_sextet v)"
  using sextet_roundtrip[of v]
  by (auto simp add: sextet_of_char_def is_ascii_whitespace_def Let_def split: if_splits)

lemma byte_bound: "unat (a :: byte) < 256"
  using unsigned_less[of a] by simp

lemma div_mod_step: "x < m \<Longrightarrow> (q * m + x) div m = (q::nat) \<and> (q * m + x) mod m = x"
  by simp

lemma join64: "n div 64 * 64 + n mod 64 = (n::nat)"
  by simp

lemma div_4096: "(n::nat) div 4096 = n div 64 div 64"
  by (simp add: div_mult2_eq[symmetric])

lemma div_262144: "(n::nat) div 262144 = n div 64 div 64 div 64"
  by (simp add: div_mult2_eq[symmetric])

lemma div_65536: "(n::nat) div 65536 = n div 256 div 256"
  by (simp add: div_mult2_eq[symmetric])

lemma join3: "(n div 4096 * 64 + n div 64 mod 64) * 64 + n mod 64 = (n::nat)"
  unfolding div_4096 by (simp only: join64)

lemma join4:
  "((n div 262144 * 64 + n div 4096 mod 64) * 64 + n div 64 mod 64) * 64 + n mod 64 = (n::nat)"
  unfolding div_4096 div_262144 by (simp only: join64)

lemma char_of_mod: "char_of (n mod 256) = char_of (n::nat)"
  by (simp add: char_of_eq_iff take_bit_eq_mod)

lemma three_bytes:
  fixes a b c :: byte
  defines "n \<equiv> unat a * 65536 + unat b * 256 + unat c"
  shows "char_of (n div 65536) = char_of (unat a)"
    and "char_of (n div 256) = char_of (unat b)"
    and "char_of n = char_of (unat c)"
proof -
  have n: "n = (unat a * 256 + unat b) * 256 + unat c" by (simp add: n_def)
  have d: "n div 256 = unat a * 256 + unat b" and m: "n mod 256 = unat c"
    unfolding n using div_mod_step[OF byte_bound[of c]] by blast+
  have d2: "(unat a * 256 + unat b) div 256 = unat a" and m2: "(unat a * 256 + unat b) mod 256 = unat b"
    using div_mod_step[OF byte_bound[of b]] by blast+
  show "char_of (n div 65536) = char_of (unat a)" by (simp only: div_65536 d d2)
  show "char_of (n div 256) = char_of (unat b)" using char_of_mod[of "n div 256"] by (simp only: d m2)
  show "char_of n = char_of (unat c)" using char_of_mod[of n] by (simp only: m)
qed

lemma two_bytes:
  fixes a b :: byte
  defines "n \<equiv> unat a * 256 + unat b"
  shows "char_of (n div 256) = char_of (unat a)" and "char_of n = char_of (unat b)"
proof -
  have d2: "n div 256 = unat a" and m2: "n mod 256 = unat b"
    unfolding n_def using div_mod_step[OF byte_bound[of b]] by blast+
  show "char_of (n div 256) = char_of (unat a)" by (simp only: d2)
  show "char_of n = char_of (unat b)" using char_of_mod[of n] by (simp only: m2)
qed

lemma encode_sextets_bound: "v \<in> set (encode_sextets bs) \<Longrightarrow> v < 64"
proof (induction bs arbitrary: v rule: encode_sextets.induct)
  case (1 a b c rest)
  have "(unat a * 65536 + unat b * 256 + unat c) div 262144 < 64"
    using byte_bound[of a] byte_bound[of b] byte_bound[of c] by simp
  with 1 show ?case by (auto simp add: Let_def)
next
  case (2 a b)
  have "(unat a * 256 + unat b) * 4 div 4096 < 64"
    using byte_bound[of a] byte_bound[of b] by simp
  with 2 show ?case by (auto simp add: Let_def)
next
  case (3 a)
  have "unat a * 16 div 64 < 64" using byte_bound[of a] by simp
  with 3 show ?case by (auto simp add: Let_def)
next
  case 4
  then show ?case by simp
qed

lemma length_encode_sextets:
  "length (encode_sextets bs) =
     4 * (length bs div 3) + (if length bs mod 3 = 0 then 0 else length bs mod 3 + 1)"
  by (induction bs rule: encode_sextets.induct) (simp_all add: Let_def)

lemma decode_encode_sextets:
  "decode_sextets (encode_sextets bs) = map (\<lambda>b. char_of (unat b)) bs"
proof (induction bs rule: encode_sextets.induct)
  case (1 a b c rest)
  define n where "n = unat a * 65536 + unat b * 256 + unat c"
  have enc: "encode_sextets (a # b # c # rest) =
      n div 262144 # n div 4096 mod 64 # n div 64 mod 64 # n mod 64 # encode_sextets rest"
    by (simp add: n_def Let_def)
  have "decode_sextets (encode_sextets (a # b # c # rest)) =
      char_of (n div 65536) # char_of (n div 256) # char_of n # decode_sextets (encode_sextets rest)"
    unfolding enc decode_sextets.simps Let_def join4 ..
  then show ?case using 1 three_bytes[of a b c] by (simp add: n_def)
next
  case (2 a b)
  define m where "m = unat a * 256 + unat b"
  have enc: "encode_sextets [a, b] = [m * 4 div 4096, m * 4 div 64 mod 64, m * 4 mod 64]"
    by (simp add: m_def Let_def)
  have "decode_sextets (encode_sextets [a, b]) = [char_of (m div 256), char_of m]"
    unfolding enc decode_sextets.simps Let_def join3 by simp
  then show ?case using two_bytes[of a b] by (simp add: m_def)
next
  case (3 a)
  have enc: "encode_sextets [a] = [unat a * 16 div 64, unat a * 16 mod 64]"
    by (simp add: Let_def)
  show ?case unfolding enc decode_sextets.simps join64 by simp
next
  case 4
  show ?case by simp
qed

lemma those_map_Some: "those (map Some xs) = Some xs"
  by (induction xs) simp_all

lemma sextets_of_chars:
  "\<forall>v \<in> set vs. v < 64 \<Longrightarrow> map sextet_of_char (map char_of_sextet vs) = map Some vs"
  by (induction vs) (simp_all add: sextet_roundtrip)

lemma remove_padding_append:
  assumes "CHR ''='' \<notin> set xs" and "k \<le> 2" and "(length xs + k) mod 4 = 0"
  shows "remove_padding (xs @ replicate k (CHR ''='')) = xs"
proof -
  consider "k = 0" | "k = 1" | "k = 2" using assms(2) by linarith
  then show ?thesis
  proof cases
    case 1
    then show ?thesis using assms by (cases xs rule: rev_cases) (auto simp add: remove_padding_def)
  next
    case 2
    with assms(3) have "xs \<noteq> []" by auto
    then show ?thesis using assms 2
      by (cases xs rule: rev_cases) (auto simp add: remove_padding_def butlast_append)
  next
    case 3
    then have "replicate k (CHR ''='') = [CHR ''='', CHR ''='']" by (simp add: numeral_2_eq_2)
    moreover have "Suc (Suc (length xs)) mod 4 = 0" using assms(3) 3 by simp
    ultimately show ?thesis using assms by (simp add: remove_padding_def butlast_append)
  qed
qed

lemma encode_no_pad: "CHR ''='' \<notin> set (map char_of_sextet (encode_sextets bs))"
  using encode_sextets_bound sextet_not_pad by fastforce

lemma mod3_cases: "(n::nat) mod 3 = 0 \<or> n mod 3 = 1 \<or> n mod 3 = 2"
  by arith

lemma length_encode_mod4:
  "(length (encode_sextets bs) + (3 - length bs mod 3) mod 3) mod 4 = 0"
  using mod3_cases[of "length bs"] by (auto simp add: length_encode_sextets)

lemma length_encode_not1: "length (encode_sextets bs) mod 4 \<noteq> 1"
  using mod3_cases[of "length bs"] by (auto simp add: length_encode_sextets)

lemma filter_encode:
  "filter (\<lambda>c. \<not> is_ascii_whitespace c) (base64_encode bs) = base64_encode bs"
proof -
  have "\<not> is_ascii_whitespace (CHR ''='')" by (simp add: is_ascii_whitespace_def)
  then show ?thesis
    using encode_sextets_bound sextet_not_ws
    by (auto simp add: base64_encode_def filter_id_conv)
qed

lemma atob_base64_encode: "atob (base64_encode bs) = Inr (map (\<lambda>b. char_of (unat b)) bs)"
proof -
  have pad: "remove_padding (base64_encode bs) = map char_of_sextet (encode_sextets bs)"
    unfolding base64_encode_def
    by (rule remove_padding_append) (use encode_no_pad length_encode_mod4 in \<open>simp_all\<close>)
  have vals: "map sextet_of_char (map char_of_sextet (encode_sextets bs)) = map Some (encode_sextets bs)"
    by (rule sextets_of_chars) (use encode_sextets_bound in blast)
  show ?thesis
    using length_encode_not1[of bs]
    by (simp add: atob_def filter_encode pad vals those_map_Some decode_encode_sextets del: map_map)
qed

lemma byte_of_char: "of_nat (of_char (char_of (unat (b :: byte)))) = b"
  using byte_bound[of b] by simp

lemma map_index: "map (\<lambda>i. f (xs ! i)) [0..<length xs] = map f xs"
  by (rule nth_equalityI) simp_all

lemma base64ToUint8Array_encode: "base64ToUint8Array (base64_encode bs) = Inr bs"
proof -
  have "map (\<lambda>i. (of_nat (of_char (map (\<lambda>b. char_of (unat b)) bs ! i)) :: byte))
          [0..<length (map (\<lambda>b. char_of (unat (b :: byte))) bs)] = bs"
    unfolding map_index[where f = "\<lambda>c. of_nat (of_char c)"]
    by (simp add: comp_def mod_less[OF byte_bound])
  then show ?thesis by (simp add: base64ToUint8Array_def atob_base64_encode)
qed

lemma word_of_le_bytes:
  "(word_of_int (push_bit 8 (uint (ucast (drop_bit 8 s) :: byte)) OR uint (ucast s :: byte)) :: int16) = s"
  by (rule bit_word_eqI) (auto simp add: bit_simps)

lemma sint16_le: "sint (s :: int16) \<le> 32767"
  using sint_lt[of s] by simp

lemma sint16_ge: "- 32768 \<le> sint (s :: int16)"
  using sint_ge[of s] by simp

lemma length_pcm16le_bytes: "length (pcm16le_bytes samples) = 2 * length samples"
  by (induction samples) (simp_all add: pcm16le_bytes_def)

lemma pcm16le_bytes_nth:
  "i < length samples \<Longrightarrow>
     pcm16le_bytes samples ! (i * 2) = ucast (samples ! i) \<and>
     pcm16le_bytes samples ! (i * 2 + 1) = ucast (drop_bit 8 (samples ! i))"
proof (induction samples arbitrary: i)
  case Nil
  then show ?case by simp
next
  case (Cons s samples)
  show ?case
  proof (cases i)
    case 0
    then show ?thesis by (simp add: pcm16le_bytes_def)
  next
    case (Suc j)
    with Cons.prems have "j < length samples" by simp
    from Cons.IH[OF this] show ?thesis using Suc by (simp add: pcm16le_bytes_def)
  qed
qed

lemma uint8ArrayToInt16Array_pcm: "uint8ArrayToInt16Array (pcm16le_bytes samples) = samples"
proof (rule nth_equalityI)
  show "length (uint8ArrayToInt16Array (pcm16le_bytes samples)) = length samples"
    by (simp add: uint8ArrayToInt16Array_def length_pcm16le_bytes)
next
  fix i assume "i < length (uint8ArrayToInt16Array (pcm16le_bytes samples))"
  then have i: "i < length samples"
    by (simp add: uint8ArrayToInt16Array_def length_pcm16le_bytes)
  have "\<not> sint (samples ! i) > 32767" using sint16_le[of "samples ! i"] by simp
  then show "uint8ArrayToInt16Array (pcm16le_bytes samples) ! i = samples ! i"
    using i pcm16le_bytes_nth[OF i]
    by (simp add: uint8ArrayToInt16Array_def length_pcm16le_bytes Let_def word_of_le_bytes)
qed

lemma int16ArrayToFloat32Array_map:
  "int16ArrayToFloat32Array xs = map (\<lambda>s. real_of_int (sint s) / 32768) xs"
  unfolding int16ArrayToFloat32Array_def Let_def map_index[where f = "\<lambda>s. real_of_int (sint s) * (1.0 / 32768.0)"]
  by simp

lemma real_range: "k \<le> 32767 \<Longrightarrow> (- 32768 :: int) \<le> k \<Longrightarrow> - 1 \<le> real_of_int k / 32768 \<and> real_of_int k / 32768 \<le> 1"
  by (simp; linarith)

text \<open>
  Claim C3. For every sequence of N signed 16-bit samples, decoding the base64 encoding of
  their little-endian bytes gives exactly N floats, the i-th being sample i divided by
  32768, and every float lies between -1 and 1.
\<close>

theorem decode_round_trip:
  "base64PcmToFloat32 (base64_encode (pcm16le_bytes samples)) =
     Inr (map (\<lambda>s. real_of_int (sint s) / 32768) samples) \<and>
   (\<forall>floats. base64PcmToFloat32 (base64_encode (pcm16le_bytes samples)) = Inr floats \<longrightarrow>
      length floats = length samples \<and> (\<forall>x \<in> set floats. - 1 \<le> x \<and> x \<le> 1))"
proof -
  have eq: "base64PcmToFloat32 (base64_encode (pcm16le_bytes samples)) =
     Inr (map (\<lambda>s. real_of_int (sint s) / 32768) samples)"
    by (simp add: base64PcmToFloat32_def base64ToUint8Array_encode uint8ArrayToInt16Array_pcm
        int16ArrayToFloat32Array_map)
  have "- 1 \<le> real_of_int (sint s) / 32768 \<and> real_of_int (sint s) / 32768 \<le> 1" for s :: int16
    using sint16_le[of s] sint16_ge[of s] by (rule real_range)
  then show ?thesis unfolding eq by auto
qed

theorem decode_round_trip_witness:
  "base64PcmToFloat32 (base64_encode (pcm16le_bytes [0, 16384, - 32768])) = Inr [0, 1 / 2, - 1] \<and>
   length [0, 1 / 2, - 1 :: real] = length [0, 16384, - 32768 :: int16] \<and>
   list_all (\<lambda>x. - 1 \<le> x \<and> x \<le> 1) [0, 1 / 2, - 1 :: real]"
  using decode_round_trip[of "[0, 16384, - 32768]"] by simp

section \<open>The draining routine\<close>

lemma duration_nonneg [simp]: "0 \<le> duration b"
  by (simp add: duration_def)

lemma loop_body_unchanged [simp]:
  "audioContext (loop_body now st) = audioContext st"
  "gainNode (loop_body now st) = gainNode st"
  "analyserNode (loop_body now st) = analyserNode st"
  "playbackState (loop_body now st) = playbackState st"
  "volume (loop_body now st) = volume st"
  "isProcessingQueue (loop_body now st) = isProcessingQueue st"
  "bufferLevel (loop_body now st) = bufferLevel st"
  "totalBufferedDuration (loop_body now st) = totalBufferedDuration st"
  "frameRequests (loop_body now st) = frameRequests st"
  by (simp_all add: loop_body_def Let_def emit_def)

lemma loop_body_changed [simp]:
  "audioQueue (loop_body now st) = tl (audioQueue st)"
  "nextSourceId (loop_body now st) = nextSourceId st + 1"
  "nextStartTime (loop_body now st) =
     (if nextStartTime st < now then now else nextStartTime st) + duration (hd (audioQueue st))"
  "started (loop_body now st) = started st @
     [\<lparr>sourceId = nextSourceId st, buffer = hd (audioQueue st),
       startTime = (if nextStartTime st < now then now else nextStartTime st)\<rparr>]"
  "scheduledSources (loop_body now st) = scheduledSources st @
     [\<lparr>sourceId = nextSourceId st, buffer = hd (audioQueue st),
       startTime = (if nextStartTime st < now then now else nextStartTime st)\<rparr>]"
  "emitted (loop_body now st) = emitted st @ (if nextStartTime st < now then [Underrun] else [])"
  by (simp_all add: loop_body_def Let_def emit_def)

lemma drain_loop_unchanged [simp]:
  "audioContext (drain_loop now st) = audioContext st \<and>
   gainNode (drain_loop now st) = gainNode st \<and>
   analyserNode (drain_loop now st) = analyserNode st \<and>
   playbackState (drain_loop now st) = playbackState st \<and>
   volume (drain_loop now st) = volume st \<and>
   isProcessingQueue (drain_loop now st) = isProcessingQueue st \<and>
   bufferLevel (drain_loop now st) = bufferLevel st \<and>
   totalBufferedDuration (drain_loop now st) = totalBufferedDuration st \<and>
   frameRequests (drain_loop now st) = frameRequests st"
proof (induction now st rule: drain_loop.induct)
  case (1 now st)
  show ?case
  proof (cases "audioQueue st = []")
    case True
    then show ?thesis by (simp add: drain_loop.simps)
  next
    case False
    show ?thesis
    proof (cases "nextStartTime (loop_body now st) - now > LOOKAHEAD_TIME * 10")
      case True
      with False show ?thesis by (subst (1 2 3 4 5 6 7 8 9) drain_loop.simps) simp
    next
      case over: False
      from 1[OF False over] False over show ?thesis
        by (subst (1 2 3 4 5 6 7 8 9) drain_loop.simps) simp
    qed
  qed
qed

lemma drain_loop_segments:
  "started (drain_loop now st) =
     started st @ drain_segments now (nextStartTime st) (nextSourceId st) (audioQueue st) \<and>
   scheduledSources (drain_loop now st) =
     scheduledSources st @ drain_segments now (nextStartTime st) (nextSourceId st) (audioQueue st) \<and>
   audioQueue (drain_loop now st) =
     drop (length (drain_segments now (nextStartTime st) (nextSourceId st) (audioQueue st)))
       (audioQueue st) \<and>
   nextStartTime (drain_loop now st) =
     end_time (nextStartTime st)
       (drain_segments now (nextStartTime st) (nextSourceId st) (audioQueue st)) \<and>
   emitted (drain_loop now st) =
     emitted st @ (if audioQueue st \<noteq> [] \<and> nextStartTime st < now then [Underrun] else [])"
proof (induction now st rule: drain_loop.induct)
  case (1 now st)
  show ?case
  proof (cases "audioQueue st")
    case Nil
    then show ?thesis by (simp add: drain_loop.simps)
  next
    case (Cons b q)
    show ?thesis
    proof (cases "nextStartTime (loop_body now st) - now > LOOKAHEAD_TIME * 10")
      case True
      then have "drain_loop now st = loop_body now st"
        using Cons by (subst drain_loop.simps) simp
      then show ?thesis using Cons True by (simp add: Let_def)
    next
      case False
      have ne: "audioQueue st \<noteq> []" using Cons by simp
      have eq: "drain_loop now st = drain_loop now (loop_body now st)"
        using Cons False by (subst drain_loop.simps) simp
      have ge: "\<not> nextStartTime (loop_body now st) < now"
        using duration_nonneg[of b] Cons by (simp add: not_less add_increasing2)
      have t: "nextStartTime (loop_body now st) =
          (if nextStartTime st < now then now else nextStartTime st) + duration b"
        using Cons by simp
      have over: "\<not> (if nextStartTime st < now then now else nextStartTime st) + duration b - now
          > LOOKAHEAD_TIME * 10"
        using False unfolding t .
      show ?thesis unfolding eq using 1[OF ne False] ge over Cons
        by (simp add: Let_def)
    qed
  qed
qed




lemma length_drain_segments: "length (drain_segments now t k q) \<le> length q"
  by (induction q arbitrary: t k) (simp_all add: Let_def)

lemma chained_drain_segments:
  "now \<le> t \<Longrightarrow> chained t (drain_segments now t k q)"
proof (induction q arbitrary: t k)
  case Nil
  show ?case by simp
next
  case (Cons b q)
  have "now \<le> t + duration b" using Cons.prems duration_nonneg[of b] by linarith
  from Cons.IH[OF this] Cons.prems show ?case by (simp add: Let_def)
qed

lemma chained_max_drain_segments:
  "chained (if t < now then now else t) (drain_segments now t k q)"
proof (cases q)
  case Nil
  then show ?thesis by simp
next
  case (Cons b q')
  have "now \<le> (if t < now then now else t) + duration b"
    using duration_nonneg[of b] by (simp add: add_increasing2)
  from chained_drain_segments[OF this] Cons show ?thesis by (simp add: Let_def)
qed

lemma chained_nth:
  "chained t ss \<Longrightarrow> Suc i < length ss \<Longrightarrow>
     startTime (ss ! Suc i) = startTime (ss ! i) + duration (buffer (ss ! i))"
proof (induction ss arbitrary: t i)
  case Nil
  then show ?case by simp
next
  case (Cons s ss)
  show ?case
  proof (cases i)
    case 0
    with Cons.prems show ?thesis by (cases ss) simp_all
  next
    case (Suc j)
    with Cons.prems Cons.IH[of "t + duration (buffer s)" j] show ?thesis by simp
  qed
qed

lemma chained_hd: "chained t ss \<Longrightarrow> ss \<noteq> [] \<Longrightarrow> startTime (hd ss) = t"
  by (cases ss) simp_all

lemma end_time_last:
  "ss \<noteq> [] \<Longrightarrow> end_time t ss = startTime (last ss) + duration (buffer (last ss))"
  by (induction ss arbitrary: t) (simp_all)

lemma drain_segments_ceiling:
  "now \<le> t \<Longrightarrow> Suc i < length (drain_segments now t k q) \<Longrightarrow>
     startTime (drain_segments now t k q ! Suc i) - now \<le> LOOKAHEAD_TIME * 10"
proof (induction q arbitrary: t k i)
  case Nil
  then show ?case by simp
next
  case (Cons b q)
  let ?rest = "drain_segments now (t + duration b) (k + 1) q"
  have t0: "(if t < now then now else t) = t" using Cons.prems(1) by simp
  have under: "\<not> t + duration b - now > LOOKAHEAD_TIME * 10"
    using Cons.prems(2) t0 by (auto simp add: Let_def split: if_splits)
  then have segs: "drain_segments now t k (b # q) = \<lparr>sourceId = k, buffer = b, startTime = t\<rparr> # ?rest"
    using t0 by (simp add: Let_def)
  have ge: "now \<le> t + duration b" using Cons.prems(1) duration_nonneg[of b] by linarith
  show ?case
  proof (cases i)
    case 0
    have "?rest \<noteq> []" using Cons.prems(2) 0 segs by auto
    then have "startTime (hd ?rest) = t + duration b"
      using chained_hd[OF chained_drain_segments[OF ge]] by simp
    moreover have "drain_segments now t k (b # q) ! Suc 0 = hd ?rest"
      using \<open>?rest \<noteq> []\<close> segs by (simp add: hd_conv_nth)
    ultimately show ?thesis using under 0 by simp
  next
    case (Suc j)
    have "Suc j < length ?rest" using Cons.prems(2) Suc segs by simp
    from Cons.IH[OF ge this] show ?thesis using Suc segs by simp
  qed
qed

lemma drain_segments_ceiling_any:
  assumes "Suc i < length (drain_segments now t k q)"
  shows "startTime (drain_segments now t k q ! Suc i) - now \<le> LOOKAHEAD_TIME * 10"
proof (cases q)
  case Nil
  with assms show ?thesis by simp
next
  case (Cons b q')
  define t0 where "t0 = (if t < now then now else t)"
  have "now \<le> t0" by (simp add: t0_def)
  moreover have "drain_segments now t k q = drain_segments now t0 k q"
    using Cons by (simp add: t0_def Let_def)
  ultimately show ?thesis using assms drain_segments_ceiling[of now t0 i k q] by simp
qed

section \<open>Runs of \<open>processAudioQueue\<close>\<close>

lemma processAudioQueue_not_ready: "\<not> ready st \<Longrightarrow> processAudioQueue st = st"
  by (auto simp add: ready_def processAudioQueue_def split: option.splits)

lemma processAudioQueue_ready:
  assumes "ready st"
  defines "segs \<equiv> drain_segments (clock st) (nextStartTime st) (nextSourceId st) (audioQueue st)"
  shows "started (processAudioQueue st) = started st @ segs"
    and "scheduledSources (processAudioQueue st) = scheduledSources st @ segs"
    and "audioQueue (processAudioQueue st) = drop (length segs) (audioQueue st)"
    and "nextStartTime (processAudioQueue st) = end_time (nextStartTime st) segs"
    and "emitted (processAudioQueue st) =
           emitted st @ (if audioQueue st \<noteq> [] \<and> nextStartTime st < clock st then [Underrun] else [])"
    and "ready (processAudioQueue st)"
    and "audioQueue (processAudioQueue st) \<noteq> [] \<longrightarrow> 0 < frameRequests (processAudioQueue st)"
    and "audioContext (processAudioQueue st) = audioContext st"
  using assms(1) drain_loop_segments[of "clock st" "st\<lparr>isProcessingQueue := True\<rparr>"]
    drain_loop_unchanged[of "clock st" "st\<lparr>isProcessingQueue := True\<rparr>"]
  unfolding segs_def
  by (auto simp add: ready_def processAudioQueue_def clock_def Let_def split: option.splits)

lemma scheduled_by_run_eq:
  "scheduled_by_run st =
     (if ready st
      then drain_segments (clock st) (nextStartTime st) (nextSourceId st) (audioQueue st)
      else [])"
  by (simp add: scheduled_by_run_def processAudioQueue_ready(1) processAudioQueue_not_ready)

lemma chained_end_time: "chained t ss \<Longrightarrow> t \<le> end_time t ss"
proof (induction ss arbitrary: t)
  case Nil
  show ?case by simp
next
  case (Cons s ss)
  then have "t + duration (buffer s) \<le> end_time (t + duration (buffer s)) ss" by simp
  moreover have "end_time t (s # ss) = end_time (t + duration (buffer s)) ss"
    using Cons.prems by simp
  ultimately show ?case using duration_nonneg[of "buffer s"] by linarith
qed

lemma first_end_time:
  "(if t < now then now else t) + duration b \<le> end_time t (drain_segments now t k (b # q))"
proof -
  let ?t0 = "if t < now then now else t"
  have ch: "chained ?t0 (drain_segments now t k (b # q))" by (rule chained_max_drain_segments)
  obtain rest where segs: "drain_segments now t k (b # q) = \<lparr>sourceId = k, buffer = b, startTime = ?t0\<rparr> # rest"
    by (simp add: Let_def)
  from ch have "chained (?t0 + duration b) rest" unfolding segs by simp
  from chained_end_time[OF this] show ?thesis unfolding segs by simp
qed

lemma end_time_drain_segments_mono: "t \<le> end_time t (drain_segments now t k q)"
proof (cases q)
  case Nil
  then show ?thesis by simp
next
  case (Cons b q')
  have "t \<le> (if t < now then now else t) + duration b"
    using duration_nonneg[of b] by (simp add: add_increasing2 less_imp_le)
  with first_end_time[of t now b k q'] Cons show ?thesis by simp
qed

lemma processAudioQueue_mono: "nextStartTime st \<le> nextStartTime (processAudioQueue st)"
proof (cases "ready st")
  case True
  then show ?thesis
    using end_time_drain_segments_mono by (simp add: processAudioQueue_ready(4))
next
  case False
  then show ?thesis by (simp add: processAudioQueue_not_ready)
qed

lemma drain_segments_exceeded:
  "length (drain_segments now t k q) < length q \<Longrightarrow>
     end_time t (drain_segments now t k q) - now > LOOKAHEAD_TIME * 10"
proof (induction q arbitrary: t k)
  case Nil
  then show ?case by simp
next
  case (Cons b q)
  show ?case
  proof (cases "(if t < now then now else t) + duration b - now > LOOKAHEAD_TIME * 10")
    case True
    then show ?thesis by (simp add: Let_def)
  next
    case False
    with Cons.prems have "length (drain_segments now ((if t < now then now else t) + duration b) (k + 1) q) < length q"
      by (simp add: Let_def)
    from Cons.IH[OF this] False show ?thesis by (simp add: Let_def)
  qed
qed

text \<open>
  Claim C1. In a run of the draining routine, each segment scheduled after another begins
  exactly where its predecessor ends: start (i+1) = start i + duration i. Within one run
  the underrun branch can only be taken for the first segment, so this holds for every
  consecutive pair of the run. The first segment of a run begins at \<open>nextStartTime\<close>
  unless the underrun branch is taken, and the run leaves \<open>nextStartTime\<close> at the end of
  its last segment, so the equation also links the last segment of one run to the first
  segment of the next.
\<close>

theorem gapless_invariant:
  "started (processAudioQueue st) = started st @ scheduled_by_run st \<and>
   (\<forall>i. Suc i < length (scheduled_by_run st) \<longrightarrow>
      startTime (scheduled_by_run st ! Suc i) =
        startTime (scheduled_by_run st ! i) + duration (buffer (scheduled_by_run st ! i))) \<and>
   (scheduled_by_run st \<noteq> [] \<longrightarrow> \<not> nextStartTime st < clock st \<longrightarrow>
      startTime (hd (scheduled_by_run st)) = nextStartTime st) \<and>
   (scheduled_by_run st \<noteq> [] \<longrightarrow>
      nextStartTime (processAudioQueue st) =
        startTime (last (scheduled_by_run st)) + duration (buffer (last (scheduled_by_run st))))"
proof (cases "ready st")
  case False
  then show ?thesis by (simp add: scheduled_by_run_eq processAudioQueue_not_ready)
next
  case True
  let ?t = "nextStartTime st"
  let ?segs = "drain_segments (clock st) ?t (nextSourceId st) (audioQueue st)"
  have run: "scheduled_by_run st = ?segs" using True by (simp add: scheduled_by_run_eq)
  have ch: "chained (if ?t < clock st then clock st else ?t) ?segs"
    by (rule chained_max_drain_segments)
  have a: "started (processAudioQueue st) = started st @ ?segs"
    using True by (rule processAudioQueue_ready(1))
  have b: "\<forall>i. Suc i < length ?segs \<longrightarrow>
      startTime (?segs ! Suc i) = startTime (?segs ! i) + duration (buffer (?segs ! i))"
    using chained_nth[OF ch] by blast
  have c: "?segs \<noteq> [] \<longrightarrow> \<not> ?t < clock st \<longrightarrow> startTime (hd ?segs) = ?t"
    using chained_hd[OF ch] by auto
  have d: "?segs \<noteq> [] \<longrightarrow> nextStartTime (processAudioQueue st) =
      startTime (last ?segs) + duration (buffer (last ?segs))"
    using processAudioQueue_ready(4)[OF True] end_time_last[of ?segs ?t] by simp
  show ?thesis unfolding run using a b c d by blast
qed

theorem gapless_invariant_witness:
  "scheduled_by_run (playing_service 5 5 [silence 2400, silence 2400, silence 2400]) =
     [\<lparr>sourceId = 0, buffer = silence 2400, startTime = 5\<rparr>,
      \<lparr>sourceId = 1, buffer = silence 2400, startTime = 5 + 1 / 10\<rparr>,
      \<lparr>sourceId = 2, buffer = silence 2400, startTime = 5 + 2 / 10\<rparr>] \<and>
   \<not> nextStartTime (playing_service 5 5 [silence 2400, silence 2400, silence 2400])
       < clock (playing_service 5 5 [silence 2400, silence 2400, silence 2400]) \<and>
   nextStartTime (processAudioQueue (playing_service 5 5 [silence 2400, silence 2400, silence 2400])) =
     5 + 3 / 10"
  using gapless_invariant[of "playing_service 5 5 [silence 2400, silence 2400, silence 2400]"]
  by (simp add: service_eval)

text \<open>
  Claim C2. If \<open>nextStartTime\<close> is below the clock reading \<open>now\<close> when a buffer is
  dequeued, the pass through the loop body sets \<open>nextStartTime\<close> to \<open>now\<close> (and then
  advances it by the buffer's duration), emits exactly one \<open>underrun\<close> event, and hands
  the whole dequeued buffer to the output with start time \<open>now\<close>. For a run of
  \<open>processAudioQueue\<close> that passes its guards this is the first segment of the run, and
  the run emits that one event and no other.
\<close>

theorem underrun_recovery:
  assumes "audioQueue st = b # q" and "nextStartTime st < now"
  shows "nextStartTime (loop_body now st) = now + duration b \<and>
         emitted (loop_body now st) = emitted st @ [Underrun] \<and>
         started (loop_body now st) =
           started st @ [\<lparr>sourceId = nextSourceId st, buffer = b, startTime = now\<rparr>] \<and>
         audioQueue (loop_body now st) = q \<and>
         (ready st \<and> now = clock st \<longrightarrow>
            scheduled_by_run st \<noteq> [] \<and>
            hd (scheduled_by_run st) = \<lparr>sourceId = nextSourceId st, buffer = b, startTime = now\<rparr> \<and>
            emitted (processAudioQueue st) = emitted st @ [Underrun] \<and>
            now + duration b \<le> nextStartTime (processAudioQueue st))"
proof -
  have iter: "nextStartTime (loop_body now st) = now + duration b \<and>
         emitted (loop_body now st) = emitted st @ [Underrun] \<and>
         started (loop_body now st) =
           started st @ [\<lparr>sourceId = nextSourceId st, buffer = b, startTime = now\<rparr>] \<and>
         audioQueue (loop_body now st) = q"
    using assms by simp
  have run: "scheduled_by_run st \<noteq> [] \<and>
            hd (scheduled_by_run st) = \<lparr>sourceId = nextSourceId st, buffer = b, startTime = now\<rparr> \<and>
            emitted (processAudioQueue st) = emitted st @ [Underrun] \<and>
            now + duration b \<le> nextStartTime (processAudioQueue st)"
    if r: "ready st" and n: "now = clock st"
  proof -
    let ?segs = "drain_segments (clock st) (nextStartTime st) (nextSourceId st) (audioQueue st)"
    have segs: "scheduled_by_run st = ?segs" using r by (simp add: scheduled_by_run_eq)
    have hd: "?segs \<noteq> [] \<and> hd ?segs = \<lparr>sourceId = nextSourceId st, buffer = b, startTime = now\<rparr>"
      using assms n by (simp add: Let_def)
    have em: "emitted (processAudioQueue st) = emitted st @ [Underrun]"
      using processAudioQueue_ready(5)[OF r] assms n by simp
    have "now + duration b \<le> end_time (nextStartTime st) ?segs"
      using first_end_time[where t = "nextStartTime st" and now = "clock st" and b = b
            and k = "nextSourceId st" and q = q] assms n by simp
    then have "now + duration b \<le> nextStartTime (processAudioQueue st)"
      using processAudioQueue_ready(4)[OF r] by simp
    with hd em show ?thesis unfolding segs by simp
  qed
  from iter run show ?thesis by blast
qed

theorem underrun_recovery_witness:
  "audioQueue (playing_service 5 (1 / 2) [silence 2400]) = silence 2400 # [] \<and>
   nextStartTime (playing_service 5 (1 / 2) [silence 2400]) < 5 \<and>
   ready (playing_service 5 (1 / 2) [silence 2400]) \<and>
   5 = clock (playing_service 5 (1 / 2) [silence 2400]) \<and>
   hd (scheduled_by_run (playing_service 5 (1 / 2) [silence 2400])) =
     \<lparr>sourceId = 0, buffer = silence 2400, startTime = 5\<rparr> \<and>
   emitted (processAudioQueue (playing_service 5 (1 / 2) [silence 2400])) = [Underrun] \<and>
   nextStartTime (loop_body 5 (playing_service 5 (1 / 2) [silence 2400])) = 5 + 1 / 10"
  using underrun_recovery[of "playing_service 5 (1 / 2) [silence 2400]" "silence 2400" "[]" 5]
  by (simp add: service_eval)

text \<open>
  What one run does about the look-ahead ceiling of ten times \<open>LOOKAHEAD_TIME\<close>: its
  first buffer is scheduled without any test, each later buffer only when
  \<open>nextStartTime - now\<close> is at most the ceiling, and buffers stay in the queue only when
  \<open>nextStartTime - now\<close> has exceeded it.
\<close>

lemma runs_and_ceiling:
  assumes "ready st"
  shows "(audioQueue st \<noteq> [] \<longrightarrow>
            scheduled_by_run st \<noteq> [] \<and> buffer (hd (scheduled_by_run st)) = hd (audioQueue st)) \<and>
         (\<forall>i. Suc i < length (scheduled_by_run st) \<longrightarrow>
            startTime (scheduled_by_run st ! Suc i) - clock st \<le> LOOKAHEAD_TIME * 10) \<and>
         (audioQueue (processAudioQueue st) \<noteq> [] \<longrightarrow>
            nextStartTime (processAudioQueue st) - clock st > LOOKAHEAD_TIME * 10)"
proof -
  let ?segs = "drain_segments (clock st) (nextStartTime st) (nextSourceId st) (audioQueue st)"
  have segs: "scheduled_by_run st = ?segs" using assms by (simp add: scheduled_by_run_eq)
  have a: "audioQueue st \<noteq> [] \<longrightarrow> ?segs \<noteq> [] \<and> buffer (hd ?segs) = hd (audioQueue st)"
    by (cases "audioQueue st") (simp_all add: Let_def)
  have b: "\<forall>i. Suc i < length ?segs \<longrightarrow> startTime (?segs ! Suc i) - clock st \<le> LOOKAHEAD_TIME * 10"
    using drain_segments_ceiling_any by blast
  have c: "audioQueue (processAudioQueue st) \<noteq> [] \<longrightarrow>
            nextStartTime (processAudioQueue st) - clock st > LOOKAHEAD_TIME * 10"
  proof
    assume "audioQueue (processAudioQueue st) \<noteq> []"
    then have "length ?segs < length (audioQueue st)"
      using processAudioQueue_ready(3)[OF assms] by simp
    from drain_segments_exceeded[OF this] show
      "nextStartTime (processAudioQueue st) - clock st > LOOKAHEAD_TIME * 10"
      using processAudioQueue_ready(4)[OF assms] by simp
  qed
  show ?thesis unfolding segs using a b c by blast
qed

text \<open>
  Claim C4. A buffer is dequeued and scheduled only while the queue is non-empty and
  \<open>nextStartTime - now\<close> is below the look-ahead ceiling. The comments in
  \<open>processAudioQueue\<close>, \<open>Schedule buffers with look-ahead\<close> and
  \<open>Only schedule a limited amount ahead\<close>, say the same, but the code does not keep to
  it: the test comes after a buffer has been scheduled and there is none before the first
  \<open>shift()\<close>, so no run ever holds back its first buffer. The theorem evaluates the code
  at two such inputs. With a two-second buffer and a 100 ms buffer queued, the first run
  stops two seconds ahead of the clock with the 100 ms buffer left, and the next run (the
  animation-frame callback) schedules that buffer at \<open>nextStartTime - now = 2\<close>, above
  the ceiling of one second. And a chunk that arrives while \<open>nextStartTime\<close> is two
  seconds ahead of the clock is scheduled in the same call.
\<close>

theorem lookahead_ceiling_violated:
  "LOOKAHEAD_TIME * 10 \<le>
     nextStartTime (processAudioQueue (playing_service 0 0 [silence 48000, silence 2400])) -
     clock (processAudioQueue (playing_service 0 0 [silence 48000, silence 2400])) \<and>
   audioQueue (processAudioQueue (playing_service 0 0 [silence 48000, silence 2400])) =
     [silence 2400] \<and>
   scheduled_by_run (processAudioQueue (playing_service 0 0 [silence 48000, silence 2400])) =
     [\<lparr>sourceId = 1, buffer = silence 2400, startTime = 2\<rparr>] \<and>
   LOOKAHEAD_TIME * 10 \<le> nextStartTime (playing_service 0 2 []) - clock (playing_service 0 2 []) \<and>
   started (queueAudioChunk ''AAAA'' (playing_service 0 2 [])) =
     [\<lparr>sourceId = 0,
       buffer = \<lparr>numberOfChannels = 1, sampleRate = 24000, channelData = [0]\<rparr>,
       startTime = 2\<rparr>]"
  by (simp add: queueAudioChunk_def decode_eval service_eval)

section \<open>Volume\<close>

lemma clamp_number:
  "v \<noteq> NaN \<Longrightarrow> \<exists>r. Math_max (Number 0) (Math_min (Number 1) v) = Number r \<and> 0 \<le> r \<and> r \<le> 1"
  by (cases v) simp_all

lemma clamp_finite: "Math_max (Number 0) (Math_min (Number 1) (Number r)) = Number (max 0 (min 1 r))"
  by simp

text \<open>
  Claim C9 says that for every input \<open>v\<close> the stored volume is the clamped value and
  lies between 0 and 1. That holds for every number except NaN, the infinities included:
  \<open>setVolume\<close> stores \<open>Math.max(0, Math.min(1, v))\<close>, raises nothing, \<open>getVolume\<close>
  returns the stored value, the \<open>volume-change\<close> event carries it, and it lies between 0
  and 1; for a finite \<open>v\<close> it is \<open>max 0 (min 1 v)\<close>.
\<close>

theorem setVolume_clamps:
  assumes "v \<noteq> NaN"
  shows "volume (fst (setVolume v st)) = Math_max (Number 0) (Math_min (Number 1) v) \<and>
         getVolume (fst (setVolume v st)) = Math_max (Number 0) (Math_min (Number 1) v) \<and>
         emitted (fst (setVolume v st)) =
           emitted st @ [VolumeChange (Math_max (Number 0) (Math_min (Number 1) v))] \<and>
         snd (setVolume v st) = None \<and>
         in_unit_interval (getVolume (fst (setVolume v st))) \<and>
         (\<forall>r. v = Number r \<longrightarrow> getVolume (fst (setVolume v st)) = Number (max 0 (min 1 r)))"
proof -
  obtain r where r: "Math_max (Number 0) (Math_min (Number 1) v) = Number r" "0 \<le> r" "r \<le> 1"
    using clamp_number[OF assms] by blast
  have vol: "volume (fst (setVolume v st)) = Number r \<and>
      emitted (fst (setVolume v st)) = emitted st @ [VolumeChange (Number r)] \<and>
      snd (setVolume v st) = None"
    by (cases "gainNode st") (simp_all add: setVolume_def emit_def Let_def r(1))
  have fin: "\<forall>q. v = Number q \<longrightarrow> Number r = Number (max 0 (min 1 q))"
    using r(1) clamp_finite by auto
  have get: "getVolume (fst (setVolume v st)) = Number r"
    using vol by (simp add: getVolume_def)
  have unit: "in_unit_interval (Number r)"
    using r(2,3) by (simp add: in_unit_interval_def)
  show ?thesis
    unfolding get r(1) using vol fin unit by blast
qed

text \<open>
  Claim C9 as stated fails for NaN: \<open>Math.max(0, Math.min(1, NaN))\<close> is NaN, so without
  a gain node \<open>setVolume(NaN)\<close> stores NaN, \<open>getVolume\<close> returns NaN and the event
  carries NaN; with a gain node NaN is stored, \<open>setTargetAtTime\<close> throws and no event is
  emitted.
\<close>

theorem setVolume_NaN_counterexample:
  "getVolume (fst (setVolume NaN newAudioService)) = NaN \<and>
   emitted (fst (setVolume NaN newAudioService)) = [VolumeChange NaN] \<and>
   \<not> in_unit_interval (getVolume (fst (setVolume NaN newAudioService))) \<and>
   getVolume (fst (setVolume NaN initialized_service)) = NaN \<and>
   snd (setVolume NaN initialized_service) = Some TypeError \<and>
   emitted (fst (setVolume NaN initialized_service)) = []"
  by (simp add: setVolume_def getVolume_def in_unit_interval_def emit_def Let_def
      initialized_service_def initialize_def newAudioService_def)

theorem setVolume_clamps_witness:
  "Number (3 / 2) \<noteq> NaN \<and> NegInfinity \<noteq> NaN \<and>
   getVolume (fst (setVolume (Number (3 / 2)) newAudioService)) = Number 1 \<and>
   getVolume (fst (setVolume NegInfinity newAudioService)) = Number 0 \<and>
   emitted (fst (setVolume (Number (1 / 4)) initialized_service)) = [VolumeChange (Number (1 / 4))] \<and>
   gainNode (fst (setVolume (Number (1 / 4)) initialized_service)) = Some (1 / 4)"
  using setVolume_clamps[of "Number (3 / 2)" newAudioService]
    setVolume_clamps[of NegInfinity newAudioService]
    setVolume_clamps[of "Number (1 / 4)" initialized_service]
  by (simp add: setVolume_def emit_def Let_def initialized_service_def initialize_def
      newAudioService_def)

section \<open>Queueing before initialisation\<close>

text \<open>
  Claim C10. Without an audio context \<open>queueAudioChunk\<close> returns normally and drops
  the chunk: the queue, the buffered duration, the buffer level, \<open>nextStartTime\<close> and
  the playback state are unchanged, nothing is emitted or scheduled, and the only effect
  is the console warning.
\<close>

theorem queueAudioChunk_uninitialized:
  assumes "audioContext st = None"
  shows "queueAudioChunk base64Data st = st\<lparr>console := console st @ [''AudioContext not initialized'']\<rparr> \<and>
         audioQueue (queueAudioChunk base64Data st) = audioQueue st \<and>
         totalBufferedDuration (queueAudioChunk base64Data st) = totalBufferedDuration st \<and>
         bufferLevel (queueAudioChunk base64Data st) = bufferLevel st \<and>
         nextStartTime (queueAudioChunk base64Data st) = nextStartTime st \<and>
         playbackState (queueAudioChunk base64Data st) = playbackState st \<and>
         scheduledSources (queueAudioChunk base64Data st) = scheduledSources st \<and>
         started (queueAudioChunk base64Data st) = started st \<and>
         emitted (queueAudioChunk base64Data st) = emitted st"
  using assms by (simp add: queueAudioChunk_def)

theorem queueAudioChunk_uninitialized_witness:
  "audioContext newAudioService = None \<and>
   audioQueue (queueAudioChunk ''AAAA'' newAudioService) = [] \<and>
   nextStartTime (queueAudioChunk ''AAAA'' newAudioService) = 0 \<and>
   playbackState (queueAudioChunk ''AAAA'' newAudioService) = Stopped \<and>
   console (queueAudioChunk ''AAAA'' newAudioService) = [''AudioContext not initialized'']"
  using queueAudioChunk_uninitialized[of newAudioService "''AAAA''"]
  by (simp add: newAudioService_def)

section \<open>Stop, start and monotonicity\<close>

lemma setPlaybackState_fields [simp]:
  "nextStartTime (setPlaybackState s st) = nextStartTime st"
  "audioQueue (setPlaybackState s st) = audioQueue st"
  "audioContext (setPlaybackState s st) = audioContext st"
  "playbackState (setPlaybackState s st) = s"
  by (simp_all add: setPlaybackState_def emit_def)

lemma stop_fields:
  "nextStartTime (stop st) = 0"
  "playbackState (stop st) = Stopped"
  "audioQueue (stop st) = []"
  "bufferLevel (stop st) = 0"
  "map_option currentTime (audioContext (stop st)) = map_option currentTime (audioContext st)"
  by (simp_all add: stop_def stop_begin_def stop_finish_def Let_def emit_def suspend_def
      setPlaybackState_def option.map_comp comp_def)

lemma stop_begin_fields:
  "nextStartTime (stop_begin st) = 0"
  "playbackState (stop_begin st) = playbackState st"
  "audioQueue (stop_begin st) = []"
  "scheduledSources (stop_begin st) = []"
  "audioContext (stop_begin st) = audioContext st"
  by (simp_all add: stop_begin_def Let_def)

lemma stop_finish_fields:
  "nextStartTime (stop_finish st) = nextStartTime st"
  "playbackState (stop_finish st) = Stopped"
  "audioQueue (stop_finish st) = audioQueue st"
  by (simp_all add: stop_finish_def Let_def emit_def suspend_def setPlaybackState_def)

lemma initialize_fields:
  "nextStartTime (fst (initialize created st)) = nextStartTime st"
  "audioQueue (fst (initialize created st)) = audioQueue st"
  "playbackState (fst (initialize created st)) = playbackState st"
  "isProcessingQueue (fst (initialize created st)) = isProcessingQueue st"
  "frameRequests (fst (initialize created st)) = frameRequests st"
  "audioContext st \<noteq> None \<Longrightarrow> audioContext (fst (initialize created st)) \<noteq> None"
  "snd (initialize created st) \<Longrightarrow> audioContext (fst (initialize created st)) \<noteq> None"
  by (auto simp add: initialize_def split: option.splits number.splits if_splits)

lemma setVolume_fields:
  "nextStartTime (fst (setVolume v st)) = nextStartTime st"
  "audioQueue (fst (setVolume v st)) = audioQueue st"
  "playbackState (fst (setVolume v st)) = playbackState st"
  "isProcessingQueue (fst (setVolume v st)) = isProcessingQueue st"
  "frameRequests (fst (setVolume v st)) = frameRequests st"
  "audioContext (fst (setVolume v st)) = audioContext st"
  by (auto simp add: setVolume_def emit_def Let_def split: number.splits)

text \<open>
  \<open>play\<close> either fails in \<open>initialize\<close> and returns what \<open>initialize\<close> left, or it
  reaches its last two statements on \<open>before_playing created st\<close>, the state after
  \<open>initialize\<close> (when there was no context) and \<open>resume\<close> (when the context was
  suspended).
\<close>

lemma play_failed:
  "audioContext st = None \<Longrightarrow> \<not> snd (initialize created st) \<Longrightarrow>
     play created st = (fst (initialize created st), False)"
  by (simp add: play_def Let_def case_prod_beta)

lemma play_reached:
  assumes "audioContext st \<noteq> None \<or> snd (initialize created st)"
  shows "\<exists>st2. fst (play created st) = processAudioQueue (setPlaybackState Playing st2) \<and>
           nextStartTime st2 = nextStartTime st \<and> audioQueue st2 = audioQueue st \<and>
           isProcessingQueue st2 = isProcessingQueue st \<and> audioContext st2 \<noteq> None"
proof (cases "audioContext st = None")
  case True
  let ?st1 = "fst (initialize created st)"
  let ?st2 = "if map_option state (audioContext ?st1) = Some Suspended then resume ?st1 else ?st1"
  have ok: "snd (initialize created st)" using True assms by simp
  have "fst (play created st) = processAudioQueue (setPlaybackState Playing ?st2)"
    using True ok by (simp add: play_def Let_def case_prod_beta)
  moreover have "nextStartTime ?st2 = nextStartTime st \<and> audioQueue ?st2 = audioQueue st \<and>
           isProcessingQueue ?st2 = isProcessingQueue st \<and> audioContext ?st2 \<noteq> None"
    using initialize_fields(1,2,4)[of created st] initialize_fields(7)[OF ok]
    by (auto simp add: resume_def)
  ultimately show ?thesis by blast
next
  case False
  let ?st2 = "if map_option state (audioContext st) = Some Suspended then resume st else st"
  have "fst (play created st) = processAudioQueue (setPlaybackState Playing ?st2)"
    using False by (auto simp add: play_def Let_def)
  moreover have "nextStartTime ?st2 = nextStartTime st \<and> audioQueue ?st2 = audioQueue st \<and>
           isProcessingQueue ?st2 = isProcessingQueue st \<and> audioContext ?st2 \<noteq> None"
    using False by (auto simp add: resume_def)
  ultimately show ?thesis by blast
qed

lemma play_cases:
  "(audioContext st = None \<and> \<not> snd (initialize created st)) \<or>
   (audioContext st \<noteq> None \<or> snd (initialize created st))"
  by blast

lemma processAudioQueue_mono_from:
  "nextStartTime s = t \<Longrightarrow> t \<le> nextStartTime (processAudioQueue s)"
  using processAudioQueue_mono[of s] by simp

lemma queueAudioChunk_mono: "nextStartTime st \<le> nextStartTime (queueAudioChunk c st)"
  by (auto simp add: queueAudioChunk_def Let_def emit_def split: sum.splits
      intro!: processAudioQueue_mono_from)

lemma play_mono: "nextStartTime st \<le> nextStartTime (fst (play created st))"
proof (cases "audioContext st = None \<and> \<not> snd (initialize created st)")
  case True
  then show ?thesis by (simp add: play_failed initialize_fields(1))
next
  case False
  then obtain st2 where "fst (play created st) = processAudioQueue (setPlaybackState Playing st2)"
    and "nextStartTime st2 = nextStartTime st"
    using play_reached[of st created] by auto
  then show ?thesis by (simp add: processAudioQueue_mono_from)
qed

lemma processAudioQueue_empty_queue:
  "audioQueue st = [] \<Longrightarrow> nextStartTime (processAudioQueue st) = nextStartTime st"
  by (cases "ready st") (simp_all add: processAudioQueue_ready(4) processAudioQueue_not_ready)

lemma play_empty_queue:
  assumes "audioQueue st = []"
  shows "nextStartTime (fst (play created st)) = nextStartTime st"
proof (cases "audioContext st = None \<and> \<not> snd (initialize created st)")
  case True
  then show ?thesis by (simp add: play_failed initialize_fields(1))
next
  case False
  then obtain st2 where "fst (play created st) = processAudioQueue (setPlaybackState Playing st2)"
    and "nextStartTime st2 = nextStartTime st" and "audioQueue st2 = audioQueue st"
    using play_reached[of st created] by auto
  then show ?thesis using assms by (simp add: processAudioQueue_empty_queue)
qed

lemma step_mono:
  assumes "a \<noteq> Stop" and "a \<noteq> StopBegin" and "a \<noteq> Dispose"
  shows "nextStartTime st \<le> nextStartTime (step a st)"
proof (cases a)
  case (Initialize created)
  then show ?thesis by (simp add: initialize_fields(1))
next
  case (Play created)
  then show ?thesis using play_mono by simp
next
  case StopFinish
  then show ?thesis by (simp add: stop_finish_fields(1))
next
  case (QueueAudioChunk c)
  then show ?thesis using queueAudioChunk_mono by simp
next
  case (SetVolume v)
  then show ?thesis by (simp add: setVolume_fields(1))
next
  case AnimationFrame
  then show ?thesis
    using processAudioQueue_mono[of "st\<lparr>frameRequests := frameRequests st - 1\<rparr>"]
    by (simp add: animationFrame_def)
qed (use assms in \<open>simp_all add: pause_def onended_def advanceClock_def emit_def
      suspend_def Let_def\<close>)

text \<open>
  Claim C6 says that stop and start reset \<open>nextStartTime\<close> to the current time of the
  output clock, and that it never decreases while the service is playing. \<open>stop\<close> sets
  it to 0, not to the clock's time, and does so before it awaits the suspension of the
  context, while the playback state is still what it was; the rest of \<open>stop\<close> leaves
  \<open>nextStartTime\<close> alone. \<open>play\<close> has no assignment to it: with an empty queue \<open>play\<close>
  leaves it as it is, and otherwise it can only grow through the run of the draining
  routine (whose underrun branch raises it to the clock reading when the first buffer is
  scheduled). Every operation other than \<open>stop\<close> (and \<open>dispose\<close>, which calls it) leaves
  \<open>nextStartTime\<close> at least as large as before, in every state.
\<close>

theorem nextStartTime_reset_and_monotone:
  "nextStartTime (stop_begin st) = 0 \<and>
   playbackState (stop_begin st) = playbackState st \<and>
   nextStartTime (stop_finish st) = nextStartTime st \<and>
   (audioQueue st = [] \<longrightarrow> nextStartTime (fst (play created st)) = nextStartTime st) \<and>
   nextStartTime st \<le> nextStartTime (fst (play created st)) \<and>
   (a \<noteq> Stop \<and> a \<noteq> StopBegin \<and> a \<noteq> Dispose \<longrightarrow>
      nextStartTime st \<le> nextStartTime (step a st))"
  using stop_begin_fields(1,2)[of st] stop_finish_fields(1)[of st]
    play_empty_queue[of st created] play_mono[of st created] step_mono[of a st]
  by blast

text \<open>
  Claim C6 as stated fails. After playing for five seconds, \<open>stop\<close> leaves
  \<open>nextStartTime = 0\<close> while the clock reads 5, and a following \<open>play\<close> changes
  neither. And \<open>nextStartTime\<close> decreases in the playing state: with a chunk scheduled at
  clock time 5, the first half of \<open>stop\<close> takes it from \<open>5 + 1/24000\<close> to 0 while the
  state is still playing; a chunk that arrives before \<open>stop\<close> continues is scheduled, and
  \<open>stop\<close> then ends with \<open>nextStartTime\<close> at \<open>5 + 1/24000\<close>.
\<close>

theorem nextStartTime_reset_counterexample:
  "clock (stop played_until_5) = 5 \<and> nextStartTime (stop played_until_5) = 0 \<and>
   clock (fst (play None (stop played_until_5))) = 5 \<and>
   nextStartTime (fst (play None (stop played_until_5))) = 0 \<and>
   playbackState chunk_played_at_5 = Playing \<and>
   nextStartTime chunk_played_at_5 = 5 + 1 / 24000 \<and>
   playbackState (stop_begin chunk_played_at_5) = Playing \<and>
   nextStartTime (stop_begin chunk_played_at_5) = 0 \<and>
   playbackState (stop_finish (queueAudioChunk ''AAAA'' (stop_begin chunk_played_at_5))) = Stopped \<and>
   nextStartTime (stop_finish (queueAudioChunk ''AAAA'' (stop_begin chunk_played_at_5))) =
     5 + 1 / 24000"
  by (simp add: queueAudioChunk_def decode_eval control_eval service_eval)

theorem nextStartTime_reset_and_monotone_witness:
  "audioQueue chunk_played_at_5 = [] \<and>
   nextStartTime chunk_played_at_5 = 5 + 1 / 24000 \<and>
   nextStartTime (fst (play None chunk_played_at_5)) = 5 + 1 / 24000 \<and>
   QueueAudioChunk ''AAAA'' \<noteq> Stop \<and> QueueAudioChunk ''AAAA'' \<noteq> StopBegin \<and>
   QueueAudioChunk ''AAAA'' \<noteq> Dispose \<and>
   nextStartTime (playing_service 5 0 [silence 2400]) = 0 \<and>
   nextStartTime (step (QueueAudioChunk ''AAAA'') (playing_service 5 0 [silence 2400])) =
     5 + 1 / 10 + 1 / 24000 \<and>
   nextStartTime (playing_service 5 0 [silence 2400]) \<le>
     nextStartTime (step (QueueAudioChunk ''AAAA'') (playing_service 5 0 [silence 2400]))"
  using nextStartTime_reset_and_monotone[of chunk_played_at_5 None "QueueAudioChunk ''AAAA''"]
    nextStartTime_reset_and_monotone[of "playing_service 5 0 [silence 2400]" None
      "QueueAudioChunk ''AAAA''"]
  by (simp add: queueAudioChunk_def decode_eval control_eval service_eval)

section \<open>Fades\<close>

lemma length_fadeIn_loop [simp]: "length (fadeIn_loop r L i) = length r"
proof (induction r L i rule: fadeIn_loop.induct)
  case (1 r L i)
  then show ?case by (subst fadeIn_loop.simps) (simp add: Let_def)
qed

lemma length_fadeOut_loop [simp]: "length (fadeOut_loop r L s i) = length r"
proof (induction r L s i rule: fadeOut_loop.induct)
  case (1 r L s i)
  then show ?case by (subst fadeOut_loop.simps) (simp add: Let_def)
qed

lemma length_applyFadeIn [simp]: "length (applyFadeIn data n) = length data"
  by (simp add: applyFadeIn_def Let_def)

lemma length_applyFadeOut [simp]: "length (applyFadeOut data n) = length data"
  by (simp add: applyFadeOut_def Let_def)

lemma fadeIn_loop_nth:
  "0 \<le> i \<Longrightarrow> k < length r \<Longrightarrow>
     fadeIn_loop r L i ! k =
       (if i \<le> int k \<and> int k < L then r ! k * (real k / real_of_int L) else r ! k)"
proof (induction r L i rule: fadeIn_loop.induct)
  case (1 r L i)
  show ?case
  proof (cases "i < L")
    case False
    then show ?thesis by (subst fadeIn_loop.simps) simp
  next
    case True
    let ?r = "r[nat i := r ! nat i * (real_of_int i / real_of_int L)]"
    have unfold: "fadeIn_loop r L i = fadeIn_loop ?r L (i + 1)"
      using True by (subst fadeIn_loop.simps) (simp add: Let_def)
    have ih: "fadeIn_loop ?r L (i + 1) ! k =
        (if i + 1 \<le> int k \<and> int k < L then ?r ! k * (real k / real_of_int L) else ?r ! k)"
      using "1.IH"[OF True refl] "1.prems" by simp
    show ?thesis
    proof (cases "int k = i")
      case eq: True
      then have "nat i = k" by simp
      then show ?thesis unfolding unfold ih using "1.prems" True eq by simp
    next
      case neq: False
      then have "nat i \<noteq> k" using "1.prems"(1) by auto
      then show ?thesis unfolding unfold ih using neq by auto
    qed
  qed
qed

lemma fadeOut_loop_nth:
  "0 \<le> i \<Longrightarrow> 0 \<le> s \<Longrightarrow> k < length r \<Longrightarrow>
     fadeOut_loop r L s i ! k =
       (if s + i \<le> int k \<and> int k < s + L
        then r ! k * (1 - real_of_int (int k - s) / real_of_int L) else r ! k)"
proof (induction r L s i rule: fadeOut_loop.induct)
  case (1 r L s i)
  show ?case
  proof (cases "i < L")
    case False
    then show ?thesis by (subst fadeOut_loop.simps) simp
  next
    case True
    let ?r = "r[nat (s + i) := r ! nat (s + i) * (1 - real_of_int i / real_of_int L)]"
    have unfold: "fadeOut_loop r L s i = fadeOut_loop ?r L s (i + 1)"
      using True by (subst fadeOut_loop.simps) (simp add: Let_def)
    have ih: "fadeOut_loop ?r L s (i + 1) ! k =
        (if s + (i + 1) \<le> int k \<and> int k < s + L
         then ?r ! k * (1 - real_of_int (int k - s) / real_of_int L) else ?r ! k)"
      using "1.IH"[OF True refl] "1.prems" by simp
    show ?thesis
    proof (cases "int k = s + i")
      case eq: True
      then have "nat (s + i) = k" by simp
      moreover have "real_of_int (int k - s) = real_of_int i" using eq by simp
      ultimately show ?thesis unfolding unfold ih using "1.prems" True eq by simp
    next
      case neq: False
      then have "nat (s + i) \<noteq> k" using "1.prems"(1,2) by auto
      then show ?thesis unfolding unfold ih using neq by auto
    qed
  qed
qed

lemma applyFadeIn_nth:
  "k < length data \<Longrightarrow>
     applyFadeIn data n ! k =
       (if int k < min n (int (length data))
        then data ! k * (real k / real_of_int (min n (int (length data)))) else data ! k)"
  by (simp add: applyFadeIn_def Let_def fadeIn_loop_nth)

lemma applyFadeOut_nth:
  "k < length data \<Longrightarrow>
     applyFadeOut data n ! k =
       (if int (length data) - min n (int (length data)) \<le> int k
        then data ! k *
             (1 - real_of_int (int k - (int (length data) - min n (int (length data)))) /
                  real_of_int (min n (int (length data))))
        else data ! k)"
  by (simp add: applyFadeOut_def Let_def fadeOut_loop_nth)

text \<open>
  Claim C8 says that the exit fade is the time-reversed mirror of the entry fade. The
  entry fade gives the sample at distance \<open>d\<close> from the start the gain
  \<open>d / fadeLength\<close>; the exit fade gives the sample at distance \<open>d\<close> from the end the
  gain \<open>(d + 1) / fadeLength\<close>, because its gain at loop index \<open>i\<close> is
  \<open>1 - i / fadeLength\<close>, the complement of the entry gain at the same index. The exit
  fade is the mirror image shifted by one sample; samples outside the fade window are
  unchanged by both.
\<close>

theorem exit_fade_shifted_mirror:
  assumes "d < length data"
  shows "rev (applyFadeOut data fadeSamples) ! d =
           (if int d < min fadeSamples (int (length data))
            then rev data ! d * (real (d + 1) / real_of_int (min fadeSamples (int (length data))))
            else rev data ! d) \<and>
         applyFadeIn (rev data) fadeSamples ! d =
           (if int d < min fadeSamples (int (length data))
            then rev data ! d * (real d / real_of_int (min fadeSamples (int (length data))))
            else rev data ! d)"
proof -
  define fadeLength where "fadeLength = min fadeSamples (int (length data))"
  let ?n = "length data"
  let ?k = "?n - Suc d"
  have k: "?k < ?n" using assms(1) by simp
  have intk: "int ?k = int ?n - 1 - int d" using assms(1) by simp
  have out: "rev (applyFadeOut data fadeSamples) ! d = applyFadeOut data fadeSamples ! ?k"
    using assms(1) by (simp add: rev_nth)
  have dat: "rev data ! d = data ! ?k" using assms(1) by (simp add: rev_nth)
  have cond: "(int ?n - fadeLength \<le> int ?k) = (int d < fadeLength)"
    unfolding intk by auto
  have gain: "1 - real_of_int (int ?k - (int ?n - fadeLength)) / real_of_int fadeLength =
      real (d + 1) / real_of_int fadeLength" if "int d < fadeLength"
  proof -
    have pos: "real_of_int fadeLength \<noteq> 0" using that by auto
    have "real_of_int (int ?k - (int ?n - fadeLength)) = real_of_int fadeLength - real (d + 1)"
      unfolding intk by simp
    then show ?thesis using pos by (simp add: field_simps)
  qed
  have a: "rev (applyFadeOut data fadeSamples) ! d =
           (if int d < fadeLength
            then rev data ! d * (real (d + 1) / real_of_int fadeLength) else rev data ! d)"
    unfolding out dat applyFadeOut_nth[OF k] fadeLength_def[symmetric] cond
    using gain by simp
  have b: "applyFadeIn (rev data) fadeSamples ! d =
           (if int d < fadeLength
            then rev data ! d * (real d / real_of_int fadeLength) else rev data ! d)"
    using assms(1) by (simp add: applyFadeIn_nth fadeLength_def)
  from a b show ?thesis unfolding fadeLength_def ..
qed

text \<open>
  Claim C8 as stated fails on two samples of value 1 with \<open>fadeSamples = 2\<close>: the
  reversed exit fade is \<open>[1/2, 1]\<close>, the entry fade of the reversed data \<open>[0, 1/2]\<close>.
\<close>

theorem exit_fade_mirror_counterexample:
  "rev (applyFadeOut [1, 1] 2) \<noteq> applyFadeIn (rev [1, 1]) 2"
  by (simp add: applyFadeOut_def applyFadeIn_def fadeOut_loop.simps fadeIn_loop.simps)

theorem exit_fade_shifted_mirror_witness:
  "(1::nat) < length [1, 1 :: real] \<and>
   rev (applyFadeOut [1, 1] 2) ! 1 = 1 \<and> applyFadeIn (rev [1, 1]) 2 ! 1 = 1 / 2"
  using exit_fade_shifted_mirror[of 1 "[1, 1]" 2] by simp

section \<open>Chunks that fail to decode\<close>

lemma odd_trailing_byte:
  assumes "even (length bytes)"
  shows "uint8ArrayToInt16Array (bytes @ [b]) = uint8ArrayToInt16Array bytes"
proof -
  have len: "length (bytes @ [b]) div 2 = length bytes div 2" using assms by auto
  have "(bytes @ [b]) ! (i * 2) = bytes ! (i * 2) \<and> (bytes @ [b]) ! (i * 2 + 1) = bytes ! (i * 2 + 1)"
    if "i < length bytes div 2" for i
  proof -
    have "i * 2 + 1 < length bytes" using that assms by auto
    then show ?thesis by (simp add: nth_append)
  qed
  then show ?thesis unfolding uint8ArrayToInt16Array_def len by simp
qed

text \<open>
  Claim C7 says that a chunk is dropped when its base64 decoding fails or when its decoded
  byte length is odd. The first half holds: when \<open>atob\<close> throws, \<open>queueAudioChunk\<close>
  returns normally and leaves the queue, the buffered duration, the buffer level and
  \<open>nextStartTime\<close> unchanged; with an audio context the only effect is the console
  message. There is no check of the byte length: a trailing odd byte is ignored, and the
  samples before it are decoded as if the byte were absent.
\<close>

theorem decode_failure_dropped:
  assumes "atob base64Data = Inl e"
  shows "audioQueue (queueAudioChunk base64Data st) = audioQueue st \<and>
         totalBufferedDuration (queueAudioChunk base64Data st) = totalBufferedDuration st \<and>
         bufferLevel (queueAudioChunk base64Data st) = bufferLevel st \<and>
         nextStartTime (queueAudioChunk base64Data st) = nextStartTime st \<and>
         scheduledSources (queueAudioChunk base64Data st) = scheduledSources st \<and>
         started (queueAudioChunk base64Data st) = started st \<and>
         emitted (queueAudioChunk base64Data st) = emitted st \<and>
         (audioContext st \<noteq> None \<longrightarrow>
            queueAudioChunk base64Data st =
              st\<lparr>console := console st @ [''Failed to queue audio chunk:'']\<rparr>) \<and>
         (\<forall>bytes b. even (length bytes) \<longrightarrow>
            uint8ArrayToInt16Array (bytes @ [b]) = uint8ArrayToInt16Array bytes)"
  using assms odd_trailing_byte
  by (simp add: queueAudioChunk_def base64PcmToFloat32_def base64ToUint8Array_def)

text \<open>
  Claim C7 as stated fails on the chunk \<open>AAAA\<close>, which decodes to three bytes: the
  chunk is queued as a buffer of one sample, and the buffered duration grows.
\<close>

theorem odd_length_counterexample:
  "base64ToUint8Array ''AAAA'' = Inr [0, 0, 0] \<and>
   audioQueue initialized_service = [] \<and>
   audioQueue (queueAudioChunk ''AAAA'' initialized_service) =
     [\<lparr>numberOfChannels = 1, sampleRate = 24000, channelData = [0]\<rparr>] \<and>
   totalBufferedDuration initialized_service = 0 \<and>
   totalBufferedDuration (queueAudioChunk ''AAAA'' initialized_service) = 1 / 24000"
  by (simp add: initialized_service_def initialize_def queueAudioChunk_def decode_eval service_eval)

theorem decode_failure_dropped_witness:
  "atob ''A'' = Inl InvalidCharacterError \<and>
   audioContext initialized_service \<noteq> None \<and>
   queueAudioChunk ''A'' initialized_service =
     initialized_service\<lparr>console := [''Failed to queue audio chunk:'']\<rparr> \<and>
   audioQueue (queueAudioChunk ''A'' initialized_service) = [] \<and>
   even (length [1, 2 :: byte]) \<and>
   uint8ArrayToInt16Array ([1, 2] @ [3]) = uint8ArrayToInt16Array [1, 2]"
proof -
  have a: "atob ''A'' = Inl InvalidCharacterError"
    by (simp add: decode_eval Let_def)
  have i: "audioContext initialized_service \<noteq> None" "console initialized_service = []"
    "audioQueue initialized_service = []"
    by (simp_all add: initialized_service_def initialize_def newAudioService_def)
  show ?thesis
    using decode_failure_dropped[OF a, of initialized_service] a i
    by (simp add: uint8ArrayToInt16Array_def)
qed

section \<open>Order preservation\<close>




lemma sources_kept:
  "scheduledSources st \<noteq> [] \<Longrightarrow> scheduledSources (processAudioQueue st) \<noteq> []"
  by (cases "ready st") (simp_all add: processAudioQueue_ready(2) processAudioQueue_not_ready)

lemma enqueued_fields [simp]:
  "audioQueue (enqueued buf st) = audioQueue st @ [buf]"
  "started (enqueued buf st) = started st"
  "scheduledSources (enqueued buf st) = scheduledSources st"
  "frameRequests (enqueued buf st) = frameRequests st"
  "ready (enqueued buf st) = ready st"
  "playbackState (enqueued buf st) = playbackState st"
  by (simp_all add: enqueued_def emit_def ready_def)



lemma advanceClock_fields [simp]:
  "ready (advanceClock dt st) = ready st"
  "pipeline (advanceClock dt st) = pipeline st"
  "audioQueue (advanceClock dt st) = audioQueue st"
  "scheduledSources (advanceClock dt st) = scheduledSources st"
  "frame_pending (advanceClock dt st) = frame_pending st"
  by (simp_all add: advanceClock_def ready_def pipeline_def frame_pending_def)







subsection \<open>States the service can reach\<close>



lemma processAudioQueue_flags:
  "isProcessingQueue (processAudioQueue st) = isProcessingQueue st"
  "playbackState (processAudioQueue st) = playbackState st"
  by (cases "ready st"; use processAudioQueue_ready(6)[of st] in
      \<open>simp add: processAudioQueue_not_ready ready_def\<close>)+








end
